theory Spec2Isabelle
  imports Complex_Main "HOL-Library.Multiset"
begin

section \<open>Data model (apps/core/models.py)\<close>

text \<open>
  Python's \<open>datetime\<close>: the calendar fields and, for an aware value, the UTC offset of its
  fixed-offset zone in microseconds. \<open>tzoffset = None\<close> is a naive datetime.
\<close>

record datetime =
  year :: int
  month :: int
  day :: int
  hour :: int
  minute :: int
  second :: int
  microsecond :: int
  tzoffset :: "int option"

text \<open>
  A row of table \<open>transactions\<close>. \<open>amount\<close> is a \<open>Decimal\<close>; it is modelled by its exact
  value. Strings are ASCII text.
\<close>

record transaction =
  transaction_id :: string
  merchant_id :: string
  zone :: string
  category :: string
  amount :: real
  timestamp :: datetime
  customer_phone :: string

text \<open>A row of table \<open>merchants\<close>: \<open>merchant_id\<close> (primary key) and the optional \<open>name\<close>.\<close>

record merchant =
  m_merchant_id :: string
  m_name :: "string option"

text \<open>The part of the relational store that the analytics views read.\<close>

record db =
  transactions :: "transaction list"
  merchants :: "merchant list"

section \<open>Calendar arithmetic (Lib/datetime.py)\<close>

definition is_leap :: "int \<Rightarrow> bool" where
  "is_leap y = (y mod 4 = 0 \<and> (y mod 100 \<noteq> 0 \<or> y mod 400 = 0))"

definition days_before_year :: "int \<Rightarrow> int" where
  "days_before_year y' = (let y = y' - 1 in y * 365 + y div 4 - y div 100 + y div 400)"

definition DAYS_IN_MONTH :: "int list" where
  "DAYS_IN_MONTH = [-1, 31, 28, 31, 30, 31, 30, 31, 31, 30, 31, 30, 31]"

definition DAYS_BEFORE_MONTH :: "int list" where
  "DAYS_BEFORE_MONTH = [-1, 0, 31, 59, 90, 120, 151, 181, 212, 243, 273, 304, 334]"

text \<open>Both tables are read only with \<open>1 \<le> m \<le> 12\<close>, which the callers check first.\<close>

definition days_in_month :: "int \<Rightarrow> int \<Rightarrow> int" where
  "days_in_month y m = (if m = 2 \<and> is_leap y then 29 else DAYS_IN_MONTH ! nat m)"

definition days_before_month :: "int \<Rightarrow> int \<Rightarrow> int" where
  "days_before_month y m = DAYS_BEFORE_MONTH ! nat m + (if m > 2 \<and> is_leap y then 1 else 0)"

definition ymd2ord :: "int \<Rightarrow> int \<Rightarrow> int \<Rightarrow> int" where
  "ymd2ord y m d = days_before_year y + days_before_month y m + d"

text \<open>
  Microseconds between 0001-01-01T00:00:00 and the wall-clock fields of a datetime, and the
  instant on the UTC time line that an aware datetime denotes.
\<close>

definition wall_microseconds :: "datetime \<Rightarrow> int" where
  "wall_microseconds dt =
     (((ymd2ord (year dt) (month dt) (day dt) * 24 + hour dt) * 60 + minute dt) * 60 + second dt)
       * 1000000 + microsecond dt"

definition utc_microseconds :: "datetime \<Rightarrow> int option" where
  "utc_microseconds dt = (case tzoffset dt of None \<Rightarrow> None
                          | Some off \<Rightarrow> Some (wall_microseconds dt - off))"

section \<open>Python strings and numbers\<close>

text \<open>
  Text is ASCII. \<open>isspace\<close> is \<open>str.isspace\<close> (also the class \<open>\s\<close> of \<open>re\<close>), \<open>isdigit\<close>
  the class \<open>\d\<close>.
\<close>

definition isspace :: "char \<Rightarrow> bool" where
  "isspace c = (c \<in> set [CHR 0x09, CHR 0x0A, CHR 0x0B, CHR 0x0C, CHR 0x0D,
                           CHR 0x1C, CHR 0x1D, CHR 0x1E, CHR 0x1F, CHR '' ''])"

definition isdigit :: "char \<Rightarrow> bool" where
  "isdigit c = (c \<in> set ''0123456789'')"

definition digit_value :: "char \<Rightarrow> nat" where
  "digit_value c = (case map_of (zip ''0123456789'' [0, 1, 2, 3, 4, 5, 6, 7, 8, 9]) c of
                      Some d \<Rightarrow> d | None \<Rightarrow> 0)"

text \<open>\<open>int(s)\<close> for a string of decimal digits.\<close>

definition digits_value :: "string \<Rightarrow> nat" where
  "digits_value s = foldl (\<lambda>n c. 10 * n + digit_value c) 0 s"

definition strip :: "string \<Rightarrow> string" where
  "strip s = rev (dropWhile isspace (rev (dropWhile isspace s)))"

definition lower_letters :: string where
  "lower_letters = ''abcdefghijklmnopqrstuvwxyz''"

definition upper_letters :: string where
  "upper_letters = ''ABCDEFGHIJKLMNOPQRSTUVWXYZ''"

definition upper_char :: "char \<Rightarrow> char" where
  "upper_char c = (case map_of (zip lower_letters upper_letters) c of Some u \<Rightarrow> u | None \<Rightarrow> c)"

definition lower_char :: "char \<Rightarrow> char" where
  "lower_char c = (case map_of (zip upper_letters lower_letters) c of Some l \<Rightarrow> l | None \<Rightarrow> c)"

definition is_cased :: "char \<Rightarrow> bool" where
  "is_cased c = (c \<in> set lower_letters \<or> c \<in> set upper_letters)"

definition upper :: "string \<Rightarrow> string" where
  "upper s = map upper_char s"

text \<open>
  \<open>str.title\<close>: a letter that follows a letter is lower-cased, any other letter is
  upper-cased. The flag is "the previous character is a letter".
\<close>

fun title_from :: "bool \<Rightarrow> string \<Rightarrow> string" where
  "title_from prev [] = []"
| "title_from prev (c # cs) =
     (if is_cased c then (if prev then lower_char c else upper_char c) # title_from True cs
      else c # title_from False cs)"

definition title :: "string \<Rightarrow> string" where
  "title s = title_from False s"

text \<open>\<open>s.replace(old, new)\<close> for a one-character \<open>old\<close>.\<close>

definition replace_char :: "char \<Rightarrow> string \<Rightarrow> string \<Rightarrow> string" where
  "replace_char old new s = concat (map (\<lambda>c. if c = old then new else [c]) s)"

definition endswith :: "string \<Rightarrow> string \<Rightarrow> bool" where
  "endswith s suffix = (length suffix \<le> length s \<and> drop (length s - length suffix) s = suffix)"

text \<open>\<open>sep.join(xs)\<close>.\<close>

fun join :: "string \<Rightarrow> string list \<Rightarrow> string" where
  "join sep [] = []"
| "join sep [x] = x"
| "join sep (x # y # ys) = x @ sep @ join sep (y # ys)"

text \<open>
  \<open>Decimal(s)\<close> on the strings the validator passes, which consist of digits, dots and
  minus signs only: an optional sign, then digits with at most one dot and at least one
  digit. \<open>None\<close> is \<open>InvalidOperation\<close>. The value is exact.
\<close>

definition Decimal :: "string \<Rightarrow> real option" where
  "Decimal s =
     (let (sign, body) = (case s of
                            c # r \<Rightarrow> if c = CHR ''-'' then (- 1, r)
                                     else if c = CHR ''+'' then (1, r) else (1 :: real, s)
                          | [] \<Rightarrow> (1, s));
          int_part = takeWhile isdigit body;
          rest = dropWhile isdigit body
      in case rest of
           [] \<Rightarrow> if int_part = [] then None else Some (sign * real (digits_value int_part))
         | c # frac_part \<Rightarrow>
             if c = CHR ''.'' \<and> list_all isdigit frac_part \<and> (int_part \<noteq> [] \<or> frac_part \<noteq> [])
             then Some (sign * (real (digits_value (int_part @ frac_part)) / 10 ^ length frac_part))
             else None)"

text \<open>Python's \<open>round(x, ndigits)\<close> on the exact value: ties go to the even digit.\<close>

definition py_round :: "real \<Rightarrow> nat \<Rightarrow> real" where
  "py_round x ndigits =
     (let s = x * 10 ^ ndigits; f = \<lfloor>s\<rfloor>; r = s - of_int f
      in of_int (if r < 1 / 2 then f else if 1 / 2 < r then f + 1
                 else if even f then f else f + 1) / 10 ^ ndigits)"

section \<open>Parsing timestamps (datetime.fromisoformat, datetime.strptime)\<close>

datatype py_error = ValueError | TypeError

text \<open>
  The constructor \<open>datetime(year, month, day, hour, minute, second, microsecond, tzinfo)\<close>
  with its range checks; the offset of a fixed-offset zone lies strictly between -24 h
  and 24 h.
\<close>

definition new_datetime ::
  "int \<Rightarrow> int \<Rightarrow> int \<Rightarrow> int \<Rightarrow> int \<Rightarrow> int \<Rightarrow> int \<Rightarrow> int option \<Rightarrow> py_error + datetime" where
  "new_datetime y m d hh mm ss us tz =
     (if 1 \<le> y \<and> y \<le> 9999 \<and> 1 \<le> m \<and> m \<le> 12 \<and> 1 \<le> d \<and> d \<le> days_in_month y m
         \<and> 0 \<le> hh \<and> hh \<le> 23 \<and> 0 \<le> mm \<and> mm \<le> 59 \<and> 0 \<le> ss \<and> ss \<le> 59
         \<and> 0 \<le> us \<and> us \<le> 999999
         \<and> (case tz of None \<Rightarrow> True
             | Some off \<Rightarrow> - 86400000000 < off \<and> off < 86400000000)
      then Inr \<lparr>year = y, month = m, day = d, hour = hh, minute = mm, second = ss,
                microsecond = us, tzoffset = tz\<rparr>
      else Inl ValueError)"

text \<open>Exactly \<open>n\<close> decimal digits at the front of a string: their value and the rest.\<close>

definition take_digits :: "nat \<Rightarrow> string \<Rightarrow> (int \<times> string) option" where
  "take_digits n s =
     (if n \<le> length s \<and> list_all isdigit (take n s)
      then Some (int (digits_value (take n s)), drop n s) else None)"

subsection \<open>fromisoformat\<close>

text \<open>
  The format documented for Python 3.7 to 3.10:
  \<open>YYYY-MM-DD[*HH[:MM[:SS[.fff[fff]]]][+HH:MM[:SS[.ffffff]]]]\<close>, where \<open>*\<close> is any single
  character. The result is naive exactly when the string has no offset.
\<close>

definition parse_isoformat_date :: "string \<Rightarrow> py_error + (int \<times> int \<times> int)" where
  "parse_isoformat_date dtstr =
     (case take_digits 4 dtstr of
        None \<Rightarrow> Inl ValueError
      | Some (y, r1) \<Rightarrow>
          (case r1 of
             [] \<Rightarrow> Inl ValueError
           | c1 # r1' \<Rightarrow>
               if c1 \<noteq> CHR ''-'' then Inl ValueError
               else (case take_digits 2 r1' of
                  None \<Rightarrow> Inl ValueError
                | Some (m, r2) \<Rightarrow>
                    (case r2 of
                       [] \<Rightarrow> Inl ValueError
                     | c2 # r2' \<Rightarrow>
                         if c2 \<noteq> CHR ''-'' then Inl ValueError
                         else (case take_digits 2 r2' of
                            None \<Rightarrow> Inl ValueError
                          | Some (d, r3) \<Rightarrow> if r3 = [] then Inr (y, m, d) else Inl ValueError)))))"

text \<open>\<open>HH[:MM[:SS[.fff[fff]]]]\<close>: hour, minute, second, microsecond.\<close>

definition parse_hh_mm_ss_ff :: "string \<Rightarrow> py_error + (int \<times> int \<times> int \<times> int)" where
  "parse_hh_mm_ss_ff tstr =
     (case take_digits 2 tstr of
        None \<Rightarrow> Inl ValueError
      | Some (hh, r1) \<Rightarrow>
          (case r1 of
             [] \<Rightarrow> Inr (hh, 0, 0, 0)
           | c1 # r1' \<Rightarrow>
               if c1 \<noteq> CHR '':'' then Inl ValueError
               else (case take_digits 2 r1' of
                  None \<Rightarrow> Inl ValueError
                | Some (mm, r2) \<Rightarrow>
                    (case r2 of
                       [] \<Rightarrow> Inr (hh, mm, 0, 0)
                     | c2 # r2' \<Rightarrow>
                         if c2 \<noteq> CHR '':'' then Inl ValueError
                         else (case take_digits 2 r2' of
                            None \<Rightarrow> Inl ValueError
                          | Some (ss, r3) \<Rightarrow>
                              (case r3 of
                                 [] \<Rightarrow> Inr (hh, mm, ss, 0)
                               | c3 # frac_part \<Rightarrow>
                                   if c3 \<noteq> CHR ''.'' then Inl ValueError
                                   else if length frac_part \<noteq> 3 \<and> length frac_part \<noteq> 6 then Inl ValueError
                                   else (case take_digits (length frac_part) frac_part of
                                      None \<Rightarrow> Inl ValueError
                                    | Some (us, r4) \<Rightarrow>
                                        Inr (hh, mm, ss,
                                             if length frac_part = 3 then us * 1000 else us))))))))"

text \<open>
  The time part with its optional offset. The offset starts at the first sign character;
  its text has 5, 8 or 15 characters. The last component is the offset in microseconds.
\<close>

definition is_sign :: "char \<Rightarrow> bool" where
  "is_sign c = (c = CHR ''-'' \<or> c = CHR ''+'')"

definition parse_isoformat_time ::
  "string \<Rightarrow> py_error + ((int \<times> int \<times> int \<times> int) \<times> int option)" where
  "parse_isoformat_time tstr =
     (if length tstr < 2 then Inl ValueError
      else
        (let timestr = takeWhile (\<lambda>c. \<not> is_sign c) tstr;
             tzpart = dropWhile (\<lambda>c. \<not> is_sign c) tstr
         in case parse_hh_mm_ss_ff timestr of
              Inl e \<Rightarrow> Inl e
            | Inr time_comps \<Rightarrow>
                (case tzpart of
                   [] \<Rightarrow> Inr (time_comps, None)
                 | sign_char # tzstr \<Rightarrow>
                     if length tzstr \<noteq> 5 \<and> length tzstr \<noteq> 8 \<and> length tzstr \<noteq> 15
                     then Inl ValueError
                     else (case parse_hh_mm_ss_ff tzstr of
                        Inl e \<Rightarrow> Inl e
                      | Inr (th, tm, ts, tus) \<Rightarrow>
                          (let td = ((th * 60 + tm) * 60 + ts) * 1000000 + tus
                           in Inr (time_comps,
                                   Some (if sign_char = CHR ''-'' then - td else td)))))))"

definition fromisoformat :: "string \<Rightarrow> py_error + datetime" where
  "fromisoformat date_string =
     (case parse_isoformat_date (take 10 date_string) of
        Inl e \<Rightarrow> Inl e
      | Inr (y, m, d) \<Rightarrow>
          (if length date_string = 10 then new_datetime y m d 0 0 0 0 None
           else case parse_isoformat_time (drop 11 date_string) of
                  Inl e \<Rightarrow> Inl e
                | Inr ((hh, mm, ss, us), tz) \<Rightarrow> new_datetime y m d hh mm ss us tz))"

subsection \<open>strptime\<close>

text \<open>
  \<open>datetime.strptime\<close> turns the format into a regular expression, matches it at the start
  of the string and refuses text that is left over. A directive gives the candidates of its
  pattern in the order in which the regular expression tries them; \<open>regex_match\<close> is the
  first way in which the whole sequence matches.
\<close>

datatype directive = DY | Dm | Dd | DH | DM | DS | Lit char | Space

text \<open>
  A run of white space in the format is one \<open>Space\<close>; the flag says that the run has
  begun.
\<close>

fun compile_from :: "bool \<Rightarrow> string \<Rightarrow> directive list" where
  "compile_from in_space [] = []"
| "compile_from in_space [c] =
     (if isspace c then (if in_space then [] else [Space]) else [Lit c])"
| "compile_from in_space (c # c' # cs) =
     (if c = CHR ''%'' then
        (if c' = CHR ''Y'' then DY else if c' = CHR ''m'' then Dm
         else if c' = CHR ''d'' then Dd else if c' = CHR ''H'' then DH
         else if c' = CHR ''M'' then DM else if c' = CHR ''S'' then DS else Lit c')
        # compile_from False cs
      else if isspace c then
        (if in_space then compile_from True (c' # cs) else Space # compile_from True (c' # cs))
      else Lit c # compile_from False (c' # cs))"

definition compile_format :: "string \<Rightarrow> directive list" where
  "compile_format fmt = compile_from False fmt"

text \<open>One alternative of two digits, or of one digit, that satisfy a condition.\<close>

definition alt2 :: "(nat \<Rightarrow> nat \<Rightarrow> bool) \<Rightarrow> string \<Rightarrow> (int \<times> string) list" where
  "alt2 ok s = (case s of
       a # b # r \<Rightarrow> if isdigit a \<and> isdigit b \<and> ok (digit_value a) (digit_value b)
                     then [(int (10 * digit_value a + digit_value b), r)] else []
     | _ \<Rightarrow> [])"

definition alt1 :: "(nat \<Rightarrow> bool) \<Rightarrow> string \<Rightarrow> (int \<times> string) list" where
  "alt1 ok s = (case s of
       a # r \<Rightarrow> if isdigit a \<and> ok (digit_value a) then [(int (digit_value a), r)] else []
     | _ \<Rightarrow> [])"

text \<open>
  The patterns: \<open>%Y\<close> is \<open>\d\d\d\d\<close>; \<open>%m\<close> is \<open>1[0-2]|0[1-9]|[1-9]\<close>; \<open>%d\<close> is
  \<open>3[0-1]|[1-2]\d|0[1-9]|[1-9]| [1-9]\<close>; \<open>%H\<close> is \<open>2[0-3]|[0-1]\d|\d\<close>; \<open>%M\<close> is
  \<open>[0-5]\d|\d\<close>; \<open>%S\<close> is \<open>6[0-1]|[0-5]\d|\d\<close>; white space in the format is \<open>\s+\<close>.
\<close>

fun candidates :: "directive \<Rightarrow> string \<Rightarrow> (int \<times> string) list" where
  "candidates DY s = (case take_digits 4 s of None \<Rightarrow> [] | Some (y, r) \<Rightarrow> [(y, r)])"
| "candidates Dm s =
     alt2 (\<lambda>a b. a = 1 \<and> b \<le> 2) s @ alt2 (\<lambda>a b. a = 0 \<and> 1 \<le> b) s @ alt1 (\<lambda>a. 1 \<le> a) s"
| "candidates Dd s =
     alt2 (\<lambda>a b. a = 3 \<and> b \<le> 1) s @ alt2 (\<lambda>a b. 1 \<le> a \<and> a \<le> 2) s
       @ alt2 (\<lambda>a b. a = 0 \<and> 1 \<le> b) s @ alt1 (\<lambda>a. 1 \<le> a) s
       @ (case s of c # r \<Rightarrow> if c = CHR '' '' then alt1 (\<lambda>a. 1 \<le> a) r else [] | [] \<Rightarrow> [])"
| "candidates DH s =
     alt2 (\<lambda>a b. a = 2 \<and> b \<le> 3) s @ alt2 (\<lambda>a b. a \<le> 1) s @ alt1 (\<lambda>a. True) s"
| "candidates DM s = alt2 (\<lambda>a b. a \<le> 5) s @ alt1 (\<lambda>a. True) s"
| "candidates DS s =
     alt2 (\<lambda>a b. a = 6 \<and> b \<le> 1) s @ alt2 (\<lambda>a b. a \<le> 5) s @ alt1 (\<lambda>a. True) s"
| "candidates (Lit c) s = (case s of c' # r \<Rightarrow> if c' = c then [(0, r)] else [] | [] \<Rightarrow> [])"
| "candidates Space s =
     map (\<lambda>n. (0, drop n s)) (rev [1..<Suc (length (takeWhile isspace s))])"

text \<open>All ways to match a sequence of directives, in the order of the search.\<close>

fun regex_matches ::
  "directive list \<Rightarrow> string \<Rightarrow> ((directive \<times> int) list \<times> string) list" where
  "regex_matches [] s = [([], s)]"
| "regex_matches (d # ds) s =
     concat (map (\<lambda>(v, r). map (\<lambda>(fs, r'). ((d, v) # fs, r')) (regex_matches ds r))
                 (candidates d s))"

definition field_value :: "(directive \<times> int) list \<Rightarrow> directive \<Rightarrow> int \<Rightarrow> int" where
  "field_value fs d dflt = (case map_of fs d of Some v \<Rightarrow> v | None \<Rightarrow> dflt)"

definition strptime :: "string \<Rightarrow> string \<Rightarrow> py_error + datetime" where
  "strptime data_string fmt =
     (case regex_matches (compile_format fmt) data_string of
        [] \<Rightarrow> Inl ValueError
      | (fs, rest) # _ \<Rightarrow>
          if rest \<noteq> [] then Inl ValueError
          else new_datetime (field_value fs DY 1900) (field_value fs Dm 1) (field_value fs Dd 1)
                            (field_value fs DH 0) (field_value fs DM 0) (field_value fs DS 0) 0 None)"

section \<open>Record validator (apps/uploads/tasks.py, clean_transaction_data)\<close>

text \<open>
  A row of \<open>csv.DictReader\<close>: the value of a header, \<open>None\<close> when the row gives none.
  \<open>get_field\<close> is \<open>str(row.get(key, '') or '')\<close>.
\<close>

type_synonym row = "string \<rightharpoonup> string"

definition get_field :: "row \<Rightarrow> string \<Rightarrow> string" where
  "get_field row key = (case row key of None \<Rightarrow> [] | Some v \<Rightarrow> v)"

definition category_mapping :: "(string \<times> string) list" where
  "category_mapping =
     [(''GROCERY'', ''Grocery''), (''GROCERIES'', ''Grocery''), (''FOOD'', ''Food''),
      (''ELECTRONICS'', ''Electronics''), (''ELECTRONIC'', ''Electronics''),
      (''FASHION'', ''Fashion''), (''CLOTHING'', ''Fashion''), (''CLOTHES'', ''Fashion''),
      (''TRANSPORT'', ''Transport''), (''TRANSPORTATION'', ''Transport''),
      (''UTILITIES'', ''Utilities''), (''UTILITY'', ''Utilities''),
      (''HEALTHCARE'', ''Healthcare''), (''HEALTH'', ''Healthcare''),
      (''EDUCATION'', ''Education''), (''EDU'', ''Education'')]"

text \<open>
  Lines 157 to 172: \<open>re.sub(r'[^\d.-]', '', amount_str)\<close>, \<open>Decimal\<close>, and the two bounds.
  \<open>None\<close> is the rejection of the record.
\<close>

definition amount_clean :: "string \<Rightarrow> string" where
  "amount_clean amount_str =
     filter (\<lambda>c. isdigit c \<or> c = CHR ''.'' \<or> c = CHR ''-'') amount_str"

definition clean_amount :: "string \<Rightarrow> real option" where
  "clean_amount amount_str =
     (case Decimal (amount_clean amount_str) of
        None \<Rightarrow> None
      | Some amt \<Rightarrow>
          if amt < 0 then None
          else if amt > 1000000 then None
          else Some amt)"

text \<open>Lines 174 to 211. \<open>now\<close> is the current instant in microseconds on the UTC line.\<close>

definition formats :: "string list" where
  "formats = [''%Y-%m-%d %H:%M:%S'', ''%Y-%m-%d %H:%M'', ''%Y/%m/%d %H:%M:%S'',
              ''%d/%m/%Y %H:%M:%S'', ''%Y-%m-%d'']"

text \<open>
  The loop over the formats: the first format that parses wins; a \<open>ValueError\<close> moves on to
  the next format, any other exception leaves the loop.
\<close>

fun try_formats :: "string \<Rightarrow> string list \<Rightarrow> py_error + datetime option" where
  "try_formats timestamp_str [] = Inr None"
| "try_formats timestamp_str (fmt # fmts) =
     (case strptime timestamp_str fmt of
        Inr t \<Rightarrow> Inr (Some t)
      | Inl ValueError \<Rightarrow> try_formats timestamp_str fmts
      | Inl TypeError \<Rightarrow> Inl TypeError)"

text \<open>\<open>django.utils.timezone.make_aware\<close> with \<open>TIME_ZONE = "UTC"\<close>.\<close>

definition make_aware :: "datetime \<Rightarrow> datetime" where
  "make_aware t = t\<lparr>tzoffset := Some 0\<rparr>"

text \<open>
  \<open>timestamp > django_timezone.now()\<close>: \<open>now()\<close> is aware, and Python refuses to compare a
  naive datetime with an aware one.
\<close>

definition later_than_now :: "datetime \<Rightarrow> int \<Rightarrow> py_error + bool" where
  "later_than_now t now = (case utc_microseconds t of
       None \<Rightarrow> Inl TypeError
     | Some us \<Rightarrow> Inr (us > now))"

definition reject_future :: "int \<Rightarrow> datetime \<Rightarrow> datetime option" where
  "reject_future now t = (case later_than_now t now of
       Inl e \<Rightarrow> None
     | Inr future \<Rightarrow> if future then None else Some t)"

definition clean_timestamp :: "int \<Rightarrow> string \<Rightarrow> datetime option" where
  "clean_timestamp now timestamp_str0 =
     (let timestamp_str = strip (replace_char (CHR 0x0A) '' '' timestamp_str0)
      in case fromisoformat (replace_char (CHR ''Z'') ''+00:00'' timestamp_str) of
           Inr t \<Rightarrow> reject_future now t
         | Inl TypeError \<Rightarrow> None
         | Inl ValueError \<Rightarrow>
             (case try_formats timestamp_str formats of
                Inl e \<Rightarrow> None
              | Inr None \<Rightarrow> None
              | Inr (Some t) \<Rightarrow> reject_future now (make_aware t)))"

text \<open>Lines 213 to 221.\<close>

definition clean_phone :: "string \<Rightarrow> string" where
  "clean_phone phone =
     (if phone \<noteq> [] then
        (let phone_clean = filter (\<lambda>c. isdigit c \<or> c = CHR ''+'') phone
         in if length (filter isdigit phone_clean) < 10 \<or> length (filter isdigit phone_clean) > 15
            then ''INVALID'' else phone_clean)
      else phone)"

text \<open>
  The value that \<open>clean_transaction_data(row)\<close> returns; \<open>None\<close> is a rejection. Its call
  \<open>Merchant.objects.get_or_create\<close>, made just before an accepted record is returned and
  whose failure is swallowed, does not change the value; it is \<open>get_or_create_merchant\<close> in
  the run loop below.
\<close>

definition clean_transaction_data :: "int \<Rightarrow> row \<Rightarrow> transaction option" where
  "clean_transaction_data now row =
     (let tid = strip (get_field row ''TRANSACTION_ID'');
          mid = strip (get_field row ''MERCHANT_ID'');
          zn = upper (strip (get_field row ''ZONE''));
          cat = title (strip (get_field row ''CATEGORY''));
          amount_str = strip (get_field row ''AMOUNT'');
          timestamp_str = strip (get_field row ''TIMESTAMP'');
          phone = strip (get_field row ''CUSTOMER_PHONE'')
      in if tid = [] \<or> mid = [] \<or> zn = [] \<or> cat = [] \<or> amount_str = [] \<or> timestamp_str = []
         then None
         else
           (let cat = (case map_of category_mapping (upper cat) of Some c \<Rightarrow> c | None \<Rightarrow> cat)
            in case clean_amount amount_str of
                 None \<Rightarrow> None
               | Some amt \<Rightarrow>
                   (case clean_timestamp now timestamp_str of
                      None \<Rightarrow> None
                    | Some ts \<Rightarrow>
                        Some \<lparr>transaction_id = tid, merchant_id = mid, zone = zn,
                              category = cat, amount = amt, timestamp = ts,
                              customer_phone = clean_phone phone\<rparr>)))"

text \<open>The check of line 142 on the raw row: the six required fields are not blank.\<close>

definition required_present :: "row \<Rightarrow> bool" where
  "required_present row =
     (\<forall>k \<in> set [''TRANSACTION_ID'', ''MERCHANT_ID'', ''ZONE'', ''CATEGORY'', ''AMOUNT'',
                  ''TIMESTAMP'']. strip (get_field row k) \<noteq> [])"

section \<open>Ingestion run (apps/uploads/tasks.py, process_csv_file)\<close>

datatype status = QUEUED | PROCESSING | COMPLETED | FAILED

text \<open>What a failed run records as its error description.\<close>

datatype failure = FileNotFound | ReadError | StoreError

text \<open>
  A row of table \<open>upload_tasks\<close>. The terminal metrics (elapsed time, peak memory, query
  count, cache-hit ratio, rows per second) are measurements and are left out.
\<close>

record upload_task =
  task_id :: string
  status :: status
  filename :: string
  file_size :: int
  rows_processed :: int
  rows_rejected :: int
  error_message :: "failure option"

text \<open>
  The staged file as the run reads it: absent, or the rows that \<open>csv.DictReader\<close> yields,
  or such rows followed by an exception of the reader.
\<close>

datatype csv_source = NoFile | Rows "row list" | BrokenAfter "row list"

text \<open>
  The behaviour of the store during one run: which of the calls raise, each kind of call
  counted from 0 in the order in which the run issues it.
\<close>

record store_faults =
  bulk_create_raises :: "nat \<Rightarrow> bool"
  save_raises :: "nat \<Rightarrow> bool"
  get_or_create_raises :: "nat \<Rightarrow> bool"

text \<open>
  The state of a run: the local variables of \<open>process_csv_file\<close> (\<open>task\<close>,
  \<open>rows_processed\<close> as \<open>local_rows_processed\<close>, \<open>rows_failed\<close>, \<open>batch_data\<close>), the
  tables of the store (\<open>task_row\<close> is the row of this run in \<open>upload_tasks\<close>, if
  there is one), the staged file, and the calls issued to the store so far: every batch passed to
  \<open>bulk_create\<close>, and the numbers of \<open>save\<close> and \<open>get_or_create\<close> calls.
\<close>

record run_state =
  task :: upload_task
  local_rows_processed :: int
  rows_failed :: int
  batch_data :: "transaction list"
  task_row :: "upload_task option"
  tables :: db
  staged_file :: bool
  bulk_calls :: "transaction list list"
  save_calls :: nat
  get_or_create_calls :: nat

definition batch_size :: int where
  "batch_size = 1000"

text \<open>
  \<open>Transaction.objects.bulk_create(batch, ignore_conflicts=True)\<close> on the table: a row
  whose identifier is already stored is skipped.
\<close>

definition bulk_create :: "transaction list \<Rightarrow> transaction list \<Rightarrow> transaction list" where
  "bulk_create table batch =
     foldl (\<lambda>tb t. if transaction_id t \<in> transaction_id ` set tb then tb else tb @ [t])
           table batch"

text \<open>The three calls to the store; the flag tells whether the call raised.\<close>

definition flush :: "store_faults \<Rightarrow> run_state \<Rightarrow> bool \<times> run_state" where
  "flush f st =
     (let k = length (bulk_calls st);
          st1 = st\<lparr>bulk_calls := bulk_calls st @ [batch_data st]\<rparr>
      in if bulk_create_raises f k then (True, st1)
         else (False, st1\<lparr>tables := (tables st)\<lparr>transactions :=
                            bulk_create (transactions (tables st)) (batch_data st)\<rparr>\<rparr>))"

definition save :: "store_faults \<Rightarrow> run_state \<Rightarrow> bool \<times> run_state" where
  "save f st =
     (let k = save_calls st
      in if save_raises f k then (True, st\<lparr>save_calls := Suc k\<rparr>)
         else (False, st\<lparr>save_calls := Suc k, task_row := Some (task st)\<rparr>))"

definition get_or_create_merchant :: "store_faults \<Rightarrow> run_state \<Rightarrow> string \<Rightarrow> run_state" where
  "get_or_create_merchant f st mid =
     (let k = get_or_create_calls st;
          st1 = st\<lparr>get_or_create_calls := Suc k\<rparr>
      in if get_or_create_raises f k \<or> mid \<in> m_merchant_id ` set (merchants (tables st))
         then st1
         else st1\<lparr>tables := (tables st)\<lparr>merchants :=
                     merchants (tables st) @ [\<lparr>m_merchant_id = mid, m_name = None\<rparr>]\<rparr>\<rparr>)"

text \<open>
  The body of \<open>for row in reader\<close> (lines 47 to 67). An exception of \<open>bulk_create\<close> or of
  \<open>task.save()\<close> is caught by the \<open>except Exception\<close> of the body, which counts one failed
  row and goes on.
\<close>

definition process_row :: "store_faults \<Rightarrow> int \<Rightarrow> run_state \<Rightarrow> row \<Rightarrow> run_state" where
  "process_row f now st row =
     (case clean_transaction_data now row of
        None \<Rightarrow> st\<lparr>rows_failed := rows_failed st + 1\<rparr>
      | Some d \<Rightarrow>
          (let st1 = get_or_create_merchant f st (merchant_id d);
               st2 = st1\<lparr>batch_data := batch_data st1 @ [d]\<rparr>
           in if int (length (batch_data st2)) \<ge> batch_size then
                (case flush f st2 of
                   (True, st3) \<Rightarrow> st3\<lparr>rows_failed := rows_failed st3 + 1\<rparr>
                 | (False, st3) \<Rightarrow>
                     (let st4 = st3\<lparr>local_rows_processed :=
                                       local_rows_processed st3 + int (length (batch_data st3)),
                                     batch_data := []\<rparr>;
                          st5 = st4\<lparr>task := (task st4)\<lparr>rows_processed :=
                                                   local_rows_processed st4\<rparr>\<rparr>
                      in case save f st5 of
                           (True, st6) \<Rightarrow> st6\<lparr>rows_failed := rows_failed st6 + 1\<rparr>
                         | (False, st6) \<Rightarrow> st6))
              else st2))"

definition process_rows :: "store_faults \<Rightarrow> int \<Rightarrow> run_state \<Rightarrow> row list \<Rightarrow> run_state" where
  "process_rows f now st rows = foldl (process_row f now) st rows"

text \<open>
  The handler of the outer \<open>except Exception\<close> (lines 116 to 124): the row of the run is
  read again, marked \<open>FAILED\<close> and saved; without a row, or when that fails, nothing is done.
\<close>

definition fail_run :: "store_faults \<Rightarrow> failure \<Rightarrow> run_state \<Rightarrow> run_state" where
  "fail_run f e st =
     (case task_row st of
        None \<Rightarrow> st
      | Some t \<Rightarrow>
          snd (save f (st\<lparr>task := t\<lparr>status := FAILED, error_message := Some e\<rparr>\<rparr>)))"

text \<open>
  Lines 69 to 114: the last batch, the terminal fields, the removal of the file (which is
  taken to succeed).
\<close>

definition complete_run :: "store_faults \<Rightarrow> run_state \<Rightarrow> run_state" where
  "complete_run f st =
     (case (if batch_data st \<noteq> [] then flush f st else (False, st)) of
        (True, st1) \<Rightarrow> fail_run f StoreError st1
      | (False, st1) \<Rightarrow>
          (let st2 = (if batch_data st \<noteq> []
                      then st1\<lparr>local_rows_processed :=
                                 local_rows_processed st1 + int (length (batch_data st1))\<rparr>
                      else st1);
               st3 = st2\<lparr>task := (task st2)\<lparr>status := COMPLETED,
                                               rows_processed := local_rows_processed st2,
                                               rows_rejected := rows_failed st2\<rparr>\<rparr>
           in case save f st3 of
                (True, st4) \<Rightarrow> fail_run f StoreError st4
              | (False, st4) \<Rightarrow> st4\<lparr>staged_file := False\<rparr>))"

text \<open>
  The whole task. \<open>st0\<close> gives the tables and the staged file before the run; its local
  variables are set here.
\<close>

definition process_csv_file ::
  "store_faults \<Rightarrow> int \<Rightarrow> csv_source \<Rightarrow> run_state \<Rightarrow> run_state" where
  "process_csv_file f now src st0 =
     (case task_row st0 of
        None \<Rightarrow> st0
      | Some t \<Rightarrow>
          (case save f (st0\<lparr>task := t\<lparr>status := PROCESSING\<rparr>\<rparr>) of
             (True, st1) \<Rightarrow> fail_run f StoreError st1
           | (False, st1) \<Rightarrow>
               (let st2 = st1\<lparr>local_rows_processed := 0, rows_failed := 0, batch_data := []\<rparr>
                in case src of
                     NoFile \<Rightarrow> fail_run f FileNotFound st2
                   | BrokenAfter rows \<Rightarrow> fail_run f ReadError (process_rows f now st2 rows)
                   | Rows rows \<Rightarrow> complete_run f (process_rows f now st2 rows))))"

section \<open>Counters of a run\<close>

text \<open>
  What the counting properties of a run depend on: the local counters \<open>rows_processed\<close> and
  \<open>rows_failed\<close>, the length of the batch, and the numbers of \<open>bulk_create\<close> and \<open>save\<close>
  calls issued so far. \<open>counter_step\<close> is the effect of the loop body on them, for a row
  that the validator accepts (\<open>valid\<close>) or rejects.
\<close>

definition counters :: "run_state \<Rightarrow> int \<times> int \<times> nat \<times> nat \<times> nat" where
  "counters st = (local_rows_processed st, rows_failed st, length (batch_data st),
                  length (bulk_calls st), save_calls st)"

definition counter_step ::
  "store_faults \<Rightarrow> bool \<Rightarrow> int \<times> int \<times> nat \<times> nat \<times> nat \<Rightarrow> int \<times> int \<times> nat \<times> nat \<times> nat" where
  "counter_step f valid = (\<lambda>(p, fl, b, c, s).
     if \<not> valid then (p, fl + 1, b, c, s)
     else if int (Suc b) \<ge> batch_size then
       (if bulk_create_raises f c then (p, fl + 1, Suc b, Suc c, s)
        else if save_raises f s then (p + int (Suc b), fl + 1, 0, Suc c, Suc s)
        else (p + int (Suc b), fl, 0, Suc c, Suc s))
     else (p, fl, Suc b, c, s))"

text \<open>A store none of whose calls raises during the run.\<close>

definition reliable :: "store_faults \<Rightarrow> bool" where
  "reliable f = (\<forall>k. \<not> bulk_create_raises f k \<and> \<not> save_raises f k)"

text \<open>The number of rows of a file that the validator accepts.\<close>

definition valid_rows :: "int \<Rightarrow> row list \<Rightarrow> nat" where
  "valid_rows now rows = length (filter (\<lambda>r. clean_transaction_data now r \<noteq> None) rows)"

section \<open>Job submission gateway (apps/uploads/api.py, ingest_csv)\<close>

text \<open>
  The uploaded file as the gateway sees it: its name and size, the decoded first 2048
  bytes (\<open>None\<close> when reading them raises), and what
  \<open>csv.DictReader(io.StringIO(sample)).fieldnames\<close> gives for that sample: a
  \<open>csv.Error\<close>, or the header list, which may be \<open>None\<close>. An upload without a name is
  falsy for \<open>if not file\<close>.
\<close>

datatype csv_fieldnames = CsvError | Fieldnames "string list option"

record uploaded_file =
  f_name :: string
  f_size :: int
  f_sample :: "string option"
  f_fieldnames :: csv_fieldnames

text \<open>
  What happens around the gateway after the checks: the identifier that \<open>uuid.uuid4()\<close>
  draws, and which of the effects raise.
\<close>

datatype write_outcome = WriteOk | WriteIOError | WriteOtherError

record gateway_env =
  new_task_id :: string
  create_task_raises :: "string option"
  makedirs_raises :: bool
  file_write :: write_outcome
  delay_raises :: bool
  thread_raises :: bool
  remove_raises :: bool
  delete_raises :: bool

text \<open>
  The state that the gateway changes: table \<open>upload_tasks\<close>, the staged files (by path
  below the staging directory), and the runs handed to the dispatcher or to a fallback
  thread, each as run identifier and path.
\<close>

record gateway_state =
  g_tasks :: "upload_task list"
  g_files :: "string list"
  g_queued :: "(string \<times> string) list"
  g_threads :: "(string \<times> string) list"

record receipt =
  r_task_id :: string
  r_file_name :: string
  r_file_size_mb :: real
  r_estimated_rows :: int
  r_status :: string

text \<open>A rejection with its HTTP status and message, or the receipt (status 200).\<close>

datatype upload_response = Rejected nat string | Accepted receipt

definition required_headers :: "string list" where
  "required_headers = [''TRANSACTION_ID'', ''MERCHANT_ID'', ''ZONE'', ''CATEGORY'', ''AMOUNT'',
                       ''TIMESTAMP'', ''CUSTOMER_PHONE'']"

definition missing_headers :: "string list \<Rightarrow> string list" where
  "missing_headers headers = filter (\<lambda>h. h \<notin> set headers) required_headers"

definition make_receipt :: "string \<Rightarrow> string \<Rightarrow> int \<Rightarrow> receipt" where
  "make_receipt tid safe_filename sz =
     \<lparr>r_task_id = tid, r_file_name = safe_filename,
      r_file_size_mb = py_round (real_of_int sz / (1024 * 1024)) 1,
      r_estimated_rows = max 1 (sz div 100),
      r_status = ''QUEUED''\<rparr>"

text \<open>Lines 70 to 139: the run record, the staged file and the hand-off.\<close>

definition create_and_dispatch ::
  "gateway_env \<Rightarrow> uploaded_file \<Rightarrow> gateway_state \<Rightarrow> upload_response \<times> gateway_state" where
  "create_and_dispatch env file st =
     (let tid = new_task_id env;
          safe_filename = take 255 (f_name file)
      in case create_task_raises env of
           Some db_error \<Rightarrow> (Rejected 500 (''Database error: '' @ db_error), st)
         | None \<Rightarrow>
             (let upload_task = \<lparr>task_id = tid, status = QUEUED, filename = safe_filename,
                                 file_size = f_size file, rows_processed = 0,
                                 rows_rejected = 0, error_message = None\<rparr>;
                  st1 = st\<lparr>g_tasks := g_tasks st @ [upload_task]\<rparr>;
                  safe_file_path = tid @ ''_'' @ safe_filename
              in if makedirs_raises env
                 then (Rejected 500 ''Upload failed due to server error'', st1)
                 else case file_write env of
                        WriteIOError \<Rightarrow> (Rejected 500 ''Failed to save file'', st1)
                      | WriteOtherError \<Rightarrow> (Rejected 500 ''File processing error'', st1)
                      | WriteOk \<Rightarrow>
                          (let st2 = st1\<lparr>g_files := g_files st1 @ [safe_file_path]\<rparr>
                           in if \<not> delay_raises env
                              then (Accepted (make_receipt tid safe_filename (f_size file)),
                                    st2\<lparr>g_queued := g_queued st2 @ [(tid, safe_file_path)]\<rparr>)
                              else if \<not> thread_raises env
                              then (Accepted (make_receipt tid safe_filename (f_size file)),
                                    st2\<lparr>g_threads := g_threads st2 @ [(tid, safe_file_path)]\<rparr>)
                              else (Rejected 503 ''Processing queue unavailable'',
                                    if remove_raises env then st2
                                    else if delete_raises env then st2\<lparr>g_files := g_files st1\<rparr>
                                    else st2\<lparr>g_files := g_files st1, g_tasks := g_tasks st\<rparr>))))"

text \<open>The pre-flight checks of lines 19 to 68, in their order.\<close>

definition ingest_csv ::
  "gateway_env \<Rightarrow> uploaded_file \<Rightarrow> gateway_state \<Rightarrow> upload_response \<times> gateway_state" where
  "ingest_csv env file st =
     (if f_name file = [] then (Rejected 400 ''No file provided'', st)
      else if f_size file = 0 then (Rejected 400 ''Empty file not allowed'', st)
      else if \<not> endswith (f_name file) ''.csv'' then (Rejected 400 ''Only CSV files allowed'', st)
      else if f_size file > 3 * 1024 * 1024 * 1024
      then (Rejected 400 ''File too large (max 3GB)'', st)
      else case f_sample file of
        None \<Rightarrow> (Rejected 400 ''Failed to validate CSV format'', st)
      | Some sample \<Rightarrow>
          if strip sample = []
          then (Rejected 400 ''File appears to be empty or corrupted'', st)
          else case f_fieldnames file of
            CsvError \<Rightarrow> (Rejected 400 ''Malformed CSV file'', st)
          | Fieldnames None \<Rightarrow> (Rejected 400 ''No CSV headers found'', st)
          | Fieldnames (Some headers) \<Rightarrow>
              if headers = [] then (Rejected 400 ''No CSV headers found'', st)
              else if missing_headers headers \<noteq> []
              then (Rejected 400 (''Missing required headers: ''
                                   @ join '', '' (missing_headers headers)), st)
              else create_and_dispatch env file st)"

section \<open>Aggregates of the store\<close>

text \<open>
  \<open>Avg\<close> and \<open>StdDev\<close> are Django's aggregates over the rows of one group; SQL gives
  \<open>NULL\<close> (\<open>None\<close>) on no rows. \<open>StdDev('amount')\<close> is called without \<open>sample=True\<close>, which
  selects the population standard deviation (\<open>STDDEV_POP\<close>). The store's numeric
  approximations are not modelled: both aggregates are exact here.
\<close>

definition Avg :: "real list \<Rightarrow> real option" where
  "Avg xs = (if xs = [] then None else Some (sum_list xs / real (length xs)))"

definition StdDev :: "real list \<Rightarrow> real option" where
  "StdDev xs = (case Avg xs of None \<Rightarrow> None
     | Some m \<Rightarrow> Some (sqrt (sum_list (map (\<lambda>x. (x - m) ^ 2) xs) / real (length xs))))"

section \<open>Pagination (django.core.paginator.Paginator)\<close>

text \<open>
  \<open>Paginator(object_list, per_page)\<close> with the defaults \<open>orphans = 0\<close> and
  \<open>allow_empty_first_page = True\<close>.
\<close>

datatype paginator_error = EmptyPage

definition num_pages :: "'a list \<Rightarrow> int \<Rightarrow> int" where
  "num_pages object_list per_page =
     (let hits = max 1 (int (length object_list))
      in \<lceil>real_of_int hits / real_of_int per_page\<rceil>)"

definition validate_number :: "'a list \<Rightarrow> int \<Rightarrow> int \<Rightarrow> paginator_error + int" where
  "validate_number object_list per_page number =
     (if number < 1 then Inl EmptyPage
      else if number > num_pages object_list per_page then Inl EmptyPage
      else Inr number)"

definition page :: "'a list \<Rightarrow> int \<Rightarrow> int \<Rightarrow> paginator_error + 'a list" where
  "page object_list per_page number =
     (case validate_number object_list per_page number of
        Inl e \<Rightarrow> Inl e
      | Inr n \<Rightarrow>
          (let bottom = (n - 1) * per_page;
               top = bottom + per_page;
               top = (if top \<ge> int (length object_list) then int (length object_list) else top)
           in Inr (drop (nat bottom) (take (nat top) object_list))))"

definition get_page :: "'a list \<Rightarrow> int \<Rightarrow> int \<Rightarrow> paginator_error + 'a list" where
  "get_page object_list per_page number =
     (let n = (case validate_number object_list per_page number of
                 Inl EmptyPage \<Rightarrow> num_pages object_list per_page
               | Inr n \<Rightarrow> n)
      in page object_list per_page n)"

section \<open>Aggregation queries (apps/analytics/api.py)\<close>

text \<open>
  An endpoint answers with a JSON body and status 200, or with an error body and status 400
  or 500. The argument \<open>store\<close> is \<open>None\<close> when a query raises (the store cannot be
  reached); the handler's \<open>except Exception\<close> then answers 500. The field \<open>query_time_ms\<close>
  is a wall-clock measurement and is left out.
\<close>

datatype 'a response = Ok200 'a | Error400 string | Error500 string

record pagination =
  p_page :: int
  p_page_size :: int
  p_total :: int
  p_total_pages :: int

subsection \<open>Dormant merchants\<close>

record dormant_row =
  d_merchant_id :: string
  d_merchant_name :: string
  d_zone :: string

record dormant_body =
  dormant_data :: "dormant_row list"
  dormant_pagination :: pagination

definition active_merchants :: "db \<Rightarrow> string list" where
  "active_merchants s = remdups (map merchant_id (transactions s))"

definition dormant_queryset :: "db \<Rightarrow> merchant list" where
  "dormant_queryset s = filter (\<lambda>m. m_merchant_id m \<notin> set (active_merchants s)) (merchants s)"

definition dormant_row_of :: "merchant \<Rightarrow> dormant_row" where
  "dormant_row_of m =
     \<lparr>d_merchant_id = m_merchant_id m,
      d_merchant_name = (case m_name m of None \<Rightarrow> ''Unknown''
                         | Some n \<Rightarrow> if n = [] then ''Unknown'' else n),
      d_zone = ''Unknown''\<rparr>"

definition dormant_merchants :: "db option \<Rightarrow> int \<Rightarrow> int \<Rightarrow> dormant_body response" where
  "dormant_merchants store pg page_size =
     (if pg < 1 \<or> page_size < 1 \<or> page_size > 1000
      then Error400 ''Invalid pagination parameters''
      else case store of
        None \<Rightarrow> Error500 ''Query failed''
      | Some s \<Rightarrow>
          (let dormant = dormant_queryset s
           in case get_page dormant page_size pg of
                Inl e \<Rightarrow> Error500 ''Query failed''
              | Inr page_obj \<Rightarrow>
                  Ok200 \<lparr>dormant_data = map dormant_row_of page_obj,
                         dormant_pagination =
                           \<lparr>p_page = pg, p_page_size = page_size,
                            p_total = int (length dormant),
                            p_total_pages = num_pages dormant page_size\<rparr>\<rparr>))"

subsection \<open>Hourly pattern\<close>

text \<open>
  \<open>Extract('timestamp', 'hour')\<close>: stored timestamps are aware and the active zone is UTC
  (\<open>USE_TZ = True\<close>, \<open>TIME_ZONE = "UTC"\<close>), so the hour is that of the UTC instant.
\<close>

definition extract_hour :: "datetime \<Rightarrow> int" where
  "extract_hour dt = (case utc_microseconds dt of
       None \<Rightarrow> hour dt
     | Some us \<Rightarrow> (us div 3600000000) mod 24)"

record hourly_group =
  g_hour :: int
  g_transaction_count :: int
  g_average_amount :: "real option"

record hourly_row =
  h_hour :: int
  h_transaction_count :: int
  h_average_amount :: real

text \<open>The grouped query: one row per hour that occurs, ordered by hour.\<close>

definition hourly_data :: "db \<Rightarrow> hourly_group list" where
  "hourly_data s =
     map (\<lambda>h. let grp = filter (\<lambda>t. extract_hour (timestamp t) = h) (transactions s)
              in \<lparr>g_hour = h, g_transaction_count = int (length grp),
                  g_average_amount = Avg (map amount grp)\<rparr>)
         (sort (remdups (map (\<lambda>t. extract_hour (timestamp t)) (transactions s))))"

definition hours_dict :: "hourly_group list \<Rightarrow> (int \<rightharpoonup> hourly_group)" where
  "hours_dict rows = foldl (\<lambda>m d. m(g_hour d \<mapsto> d)) Map.empty rows"

definition hourly_entry :: "(int \<rightharpoonup> hourly_group) \<Rightarrow> int \<Rightarrow> hourly_row" where
  "hourly_entry hdict h =
     (case hdict h of
        Some d \<Rightarrow> \<lparr>h_hour = h, h_transaction_count = g_transaction_count d,
                   h_average_amount =
                     py_round (case g_average_amount d of None \<Rightarrow> 0 | Some a \<Rightarrow> a) 2\<rparr>
      | None \<Rightarrow> \<lparr>h_hour = h, h_transaction_count = 0, h_average_amount = 0\<rparr>)"

definition hourly_pattern :: "db option \<Rightarrow> hourly_row list response" where
  "hourly_pattern store =
     (case store of
        None \<Rightarrow> Error500 ''Query failed''
      | Some s \<Rightarrow> Ok200 (map (hourly_entry (hours_dict (hourly_data s))) (map int [0..<24])))"

subsection \<open>Anomaly detector\<close>

text \<open>
  The grouped statistics query: one row per category that occurs (a group without rows does
  not exist, so the mean is always defined), in the store's order.
\<close>

record category_stat =
  cs_category :: string
  category_mean :: real
  category_std_dev :: "real option"

record anomaly_row =
  a_transaction_id :: string
  a_amount :: real
  a_category :: string
  a_category_mean :: real
  a_category_std_dev :: real
  a_std_dev_from_mean :: real

record anomalies_body =
  anomalies_data :: "anomaly_row list"
  anomalies_pagination :: pagination

definition category_amounts :: "db \<Rightarrow> string \<Rightarrow> real list" where
  "category_amounts s c = map amount (filter (\<lambda>t. category t = c) (transactions s))"

definition category_stats :: "db \<Rightarrow> category_stat list" where
  "category_stats s =
     concat (map (\<lambda>c. case Avg (category_amounts s c) of
                         None \<Rightarrow> []
                       | Some m \<Rightarrow> [\<lparr>cs_category = c, category_mean = m,
                                     category_std_dev = StdDev (category_amounts s c)\<rparr>])
                 (remdups (map category (transactions s))))"

text \<open>The body of the loop over \<open>category_stats\<close>: the rows one category contributes.\<close>

definition category_anomalies :: "db \<Rightarrow> category_stat \<Rightarrow> anomaly_row list" where
  "category_anomalies s stat =
     (case category_std_dev stat of
        None \<Rightarrow> []
      | Some sd \<Rightarrow>
          if sd \<noteq> 0 \<and> sd > 0 then
            (let threshold = category_mean stat + 3 * sd
             in map (\<lambda>t. \<lparr>a_transaction_id = transaction_id t,
                          a_amount = amount t,
                          a_category = cs_category stat,
                          a_category_mean = py_round (category_mean stat) 2,
                          a_category_std_dev = py_round sd 2,
                          a_std_dev_from_mean =
                            py_round ((amount t - category_mean stat) / sd) 1\<rparr>)
                    (filter (\<lambda>t. category t = cs_category stat \<and> amount t > threshold)
                            (transactions s)))
          else [])"

text \<open>
  The list \<open>anomalies\<close> after \<open>anomalies.sort(key=..., reverse=True)\<close>: a stable sort,
  largest amount first.
\<close>

definition find_anomalies :: "db \<Rightarrow> anomaly_row list" where
  "find_anomalies s =
     sort_key (\<lambda>a. - a_amount a) (concat (map (category_anomalies s) (category_stats s)))"

definition anomalies :: "db option \<Rightarrow> int \<Rightarrow> int \<Rightarrow> anomalies_body response" where
  "anomalies store pg page_size =
     (if pg < 1 \<or> page_size < 1 \<or> page_size > 1000
      then Error400 ''Invalid pagination parameters''
      else case store of
        None \<Rightarrow> Error500 ''Query failed''
      | Some s \<Rightarrow>
          (let anoms = find_anomalies s
           in case get_page anoms page_size pg of
                Inl e \<Rightarrow> Error500 ''Query failed''
              | Inr page_obj \<Rightarrow>
                  Ok200 \<lparr>anomalies_data = page_obj,
                         anomalies_pagination =
                           \<lparr>p_page = pg, p_page_size = page_size,
                            p_total = int (length anoms),
                            p_total_pages = num_pages anoms page_size\<rparr>\<rparr>))"

section \<open>The anomaly rule as the specification words it\<close>

text \<open>
  The sample standard deviation (divisor \<open>n - 1\<close>), undefined on fewer than two values, and
  the threshold rule of the specification for a given deviation aggregate \<open>dev\<close>: a
  transaction exceeds the threshold when the deviation of its category is defined and
  positive and its amount is strictly greater than the category's mean plus three deviations.
\<close>

definition sample_StdDev :: "real list \<Rightarrow> real option" where
  "sample_StdDev xs = (case Avg xs of None \<Rightarrow> None
     | Some m \<Rightarrow> if length xs < 2 then None
                else Some (sqrt (sum_list (map (\<lambda>x. (x - m) ^ 2) xs) / real (length xs - 1))))"

definition exceeds_threshold :: "(real list \<Rightarrow> real option) \<Rightarrow> db \<Rightarrow> transaction \<Rightarrow> bool" where
  "exceeds_threshold dev s t =
     (let xs = category_amounts s (category t)
      in case (Avg xs, dev xs) of
           (Some m, Some sd) \<Rightarrow> sd > 0 \<and> amount t > m + 3 * sd
         | _ \<Rightarrow> False)"

text \<open>What identifies a flagged transaction in the answer, and the same of a stored row.\<close>

definition anomaly_key :: "anomaly_row \<Rightarrow> string \<times> real \<times> string" where
  "anomaly_key a = (a_transaction_id a, a_amount a, a_category a)"

definition transaction_key :: "transaction \<Rightarrow> string \<times> real \<times> string" where
  "transaction_key t = (transaction_id t, amount t, category t)"

text \<open>A string of 10 to 15 digits, as the specification words the valid phone.\<close>

definition digits_10_to_15 :: "string \<Rightarrow> bool" where
  "digits_10_to_15 p = (list_all isdigit p \<and> 10 \<le> length p \<and> length p \<le> 15)"

section \<open>Example inputs\<close>

text \<open>A store with three merchants and no transaction: all three are dormant.\<close>

definition db3 :: db where
  "db3 = \<lparr>transactions = [],
          merchants = [\<lparr>m_merchant_id = ''M1'', m_name = None\<rparr>,
                       \<lparr>m_merchant_id = ''M2'', m_name = Some ''Two''\<rparr>,
                       \<lparr>m_merchant_id = ''M3'', m_name = None\<rparr>]\<rparr>"

text \<open>
  A timestamp in UTC, and eleven transactions of one category with amounts 10 (seven
  times), 11 (three times) and 18: the mean is 11, the population variance 56/11 and the
  sample variance 28/5.
\<close>

definition example_timestamp :: datetime where
  "example_timestamp = \<lparr>year = 2024, month = 1, day = 15, hour = 10, minute = 30, second = 0,
                         microsecond = 0, tzoffset = Some 0\<rparr>"

definition food_txn :: "string \<Rightarrow> real \<Rightarrow> transaction" where
  "food_txn i a = \<lparr>transaction_id = i, merchant_id = ''M1'', zone = ''NORTH'',
                    category = ''Food'', amount = a, timestamp = example_timestamp,
                    customer_phone = ''INVALID''\<rparr>"

definition db11 :: db where
  "db11 = \<lparr>transactions =
             [food_txn ''T01'' 10, food_txn ''T02'' 10, food_txn ''T03'' 10, food_txn ''T04'' 10,
              food_txn ''T05'' 10, food_txn ''T06'' 10, food_txn ''T07'' 10, food_txn ''T08'' 11,
              food_txn ''T09'' 11, food_txn ''T10'' 11, food_txn ''T11'' 18],
           merchants = [\<lparr>m_merchant_id = ''M1'', m_name = None\<rparr>]\<rparr>"

text \<open>
  A row as the test-data generator writes it, except for the timestamp, which is passed in;
  and an instant of the year 2025 as the current time (2025-01-01T00:00:00 UTC).
\<close>

definition example_row :: "string \<Rightarrow> string \<Rightarrow> string \<Rightarrow> row" where
  "example_row amount_text timestamp_text phone_text =
     [''TRANSACTION_ID'' \<mapsto> ''TXN_0001'', ''MERCHANT_ID'' \<mapsto> ''MERCH_1000'',
      ''ZONE'' \<mapsto> ''North'', ''CATEGORY'' \<mapsto> ''groceries'',
      ''AMOUNT'' \<mapsto> amount_text, ''TIMESTAMP'' \<mapsto> timestamp_text,
      ''CUSTOMER_PHONE'' \<mapsto> phone_text]"

definition now2025 :: int where
  "now2025 = wall_microseconds \<lparr>year = 2025, month = 1, day = 1, hour = 0, minute = 0,
                second = 0, microsecond = 0, tzoffset = Some 0\<rparr>"

text \<open>What the validator returns for an accepted example row.\<close>

definition example_accepted :: "real \<Rightarrow> string \<Rightarrow> transaction" where
  "example_accepted a p =
     \<lparr>transaction_id = ''TXN_0001'', merchant_id = ''MERCH_1000'', zone = ''NORTH'',
      category = ''Grocery'', amount = a, timestamp = example_timestamp, customer_phone = p\<rparr>"

text \<open>
  A queued run on an empty store, a valid row, and a store whose first \<open>bulk_create\<close> call
  raises (a lock timeout, say) while every later call succeeds.
\<close>

definition queued_task :: upload_task where
  "queued_task = \<lparr>task_id = ''run-1'', status = QUEUED, filename = ''data.csv'',
                   file_size = 100100, rows_processed = 0, rows_rejected = 0,
                   error_message = None\<rparr>"

definition fresh_state :: run_state where
  "fresh_state = \<lparr>task = queued_task, local_rows_processed = 0, rows_failed = 0,
                   batch_data = [], task_row = Some queued_task,
                   tables = \<lparr>transactions = [], merchants = []\<rparr>, staged_file = True,
                   bulk_calls = [], save_calls = 0, get_or_create_calls = 0\<rparr>"

definition good_row :: row where
  "good_row = example_row ''10.50'' ''2024-01-15T10:30:00+00:00'' ''+1 (555) 123-4567''"

definition first_insert_fails :: store_faults where
  "first_insert_fails = \<lparr>bulk_create_raises = (\<lambda>k. k = 0), save_raises = (\<lambda>k. False),
                          get_or_create_raises = (\<lambda>k. False)\<rparr>"

definition no_faults :: store_faults where
  "no_faults = \<lparr>bulk_create_raises = (\<lambda>k. False), save_raises = (\<lambda>k. False),
                 get_or_create_raises = (\<lambda>k. False)\<rparr>"

text \<open>
  An upload whose header row lacks AMOUNT, under a name that is passed in; a working
  environment; and a gateway that holds nothing yet.
\<close>

definition upload_without_amount :: "string \<Rightarrow> uploaded_file" where
  "upload_without_amount name =
     \<lparr>f_name = name, f_size = 100,
      f_sample = Some ''TRANSACTION_ID,MERCHANT_ID,ZONE,CATEGORY,TIMESTAMP,CUSTOMER_PHONE'',
      f_fieldnames = Fieldnames (Some [''TRANSACTION_ID'', ''MERCHANT_ID'', ''ZONE'',
                                       ''CATEGORY'', ''TIMESTAMP'', ''CUSTOMER_PHONE''])\<rparr>"

definition working_env :: gateway_env where
  "working_env = \<lparr>new_task_id = ''run-1'', create_task_raises = None, makedirs_raises = False,
                   file_write = WriteOk, delay_raises = False, thread_raises = False,
                   remove_raises = False, delete_raises = False\<rparr>"

definition empty_gateway :: gateway_state where
  "empty_gateway = \<lparr>g_tasks = [], g_files = [], g_queued = [], g_threads = []\<rparr>"

section \<open>Properties of the aggregation queries\<close>

subsection \<open>Pagination\<close>

lemma num_pages_ge1: "1 \<le> per_page \<Longrightarrow> 1 \<le> num_pages xs per_page"
  unfolding num_pages_def Let_def
  by (simp add: less_ceiling_iff flip: zless_iff_Suc_zadd)

lemma get_page_in_range:
  assumes "1 \<le> per_page"
  shows "\<exists>xs'. get_page xs per_page number = Inr xs'"
  using num_pages_ge1[OF assms, of xs]
  by (auto simp: get_page_def validate_number_def page_def Let_def split: paginator_error.splits)

lemma get_page_Nil: "1 \<le> per_page \<Longrightarrow> get_page [] per_page number = Inr []"
  using get_page_in_range[of per_page "[]" number]
  by (auto simp: get_page_def validate_number_def page_def Let_def split: paginator_error.splits if_splits)

lemma num_pages_bounds:
  assumes "1 \<le> per_page" "xs \<noteq> []"
  shows "(num_pages xs per_page - 1) * per_page < int (length xs)"
    and "int (length xs) \<le> num_pages xs per_page * per_page"
proof -
  let ?n = "int (length xs)"
  have n: "1 \<le> ?n" using assms(2) by (cases xs) auto
  have np: "num_pages xs per_page = \<lceil>real_of_int ?n / real_of_int per_page\<rceil>"
    using n by (simp add: num_pages_def Let_def max_def)
  have pos: "0 < real_of_int per_page" using assms(1) by simp
  have "real_of_int (num_pages xs per_page) - 1 < real_of_int ?n / real_of_int per_page"
    unfolding np by linarith
  then have "(real_of_int (num_pages xs per_page) - 1) * real_of_int per_page < real_of_int ?n"
    using pos by (simp add: pos_less_divide_eq)
  then have "real_of_int ((num_pages xs per_page - 1) * per_page) < real_of_int ?n" by simp
  then show "(num_pages xs per_page - 1) * per_page < ?n" by linarith
  have "real_of_int ?n / real_of_int per_page \<le> real_of_int (num_pages xs per_page)"
    unfolding np by linarith
  then have "real_of_int ?n \<le> real_of_int (num_pages xs per_page) * real_of_int per_page"
    using pos by (simp add: pos_divide_le_eq)
  then have "real_of_int ?n \<le> real_of_int (num_pages xs per_page * per_page)" by simp
  then show "?n \<le> num_pages xs per_page * per_page" by linarith
qed

lemma get_page_clamped:
  assumes "1 \<le> per_page" "number > num_pages xs per_page"
  shows "get_page xs per_page number = page xs per_page (num_pages xs per_page)"
  using assms by (simp add: get_page_def validate_number_def)

lemma last_page_items:
  assumes "1 \<le> per_page"
  shows "page xs per_page (num_pages xs per_page) =
           Inr (drop (nat ((num_pages xs per_page - 1) * per_page)) xs)"
proof (cases "xs = []")
  case True
  then show ?thesis using num_pages_ge1[OF assms, of xs]
    by (simp add: page_def validate_number_def Let_def)
next
  case False
  from num_pages_bounds[OF assms False] num_pages_ge1[OF assms, of xs]
  show ?thesis
    by (simp add: page_def validate_number_def Let_def algebra_simps)
qed

lemma last_page_nonempty:
  assumes "1 \<le> per_page" "xs \<noteq> []"
  shows "drop (nat ((num_pages xs per_page - 1) * per_page)) xs \<noteq> []"
proof -
  have "0 < length xs" using assms(2) by simp
  with num_pages_bounds(1)[OF assms]
  have "nat ((num_pages xs per_page - 1) * per_page) < length xs" by linarith
  then show ?thesis by simp
qed


text \<open>
  C8. Both paginated endpoints reject (status 400) every request with \<open>page < 1\<close>,
  \<open>page_size < 1\<close> or \<open>page_size > 1000\<close>, whatever the store; \<open>page = 1\<close> with
  \<open>page_size = 1000\<close> is answered with status 200; and every in-range request is answered
  with status 200, with an empty data list when the result set is empty.
\<close>
theorem pagination_bounds:
  "(pg < 1 \<or> page_size < 1 \<or> page_size > 1000 \<longrightarrow>
      dormant_merchants store pg page_size = Error400 ''Invalid pagination parameters''
      \<and> anomalies store pg page_size = Error400 ''Invalid pagination parameters'')
   \<and> (\<exists>b. dormant_merchants (Some s) 1 1000 = Ok200 b)
   \<and> (\<exists>b. anomalies (Some s) 1 1000 = Ok200 b)
   \<and> (1 \<le> pg \<and> 1 \<le> page_size \<and> page_size \<le> 1000 \<longrightarrow>
        (\<exists>b. dormant_merchants (Some s) pg page_size = Ok200 b
              \<and> (dormant_queryset s = [] \<longrightarrow> dormant_data b = []))
      \<and> (\<exists>b. anomalies (Some s) pg page_size = Ok200 b
              \<and> (find_anomalies s = [] \<longrightarrow> anomalies_data b = [])))"
proof -
  have dm: "\<exists>b. dormant_merchants (Some s) p ps = Ok200 b
              \<and> (dormant_queryset s = [] \<longrightarrow> dormant_data b = [])"
    if a: "1 \<le> p" and b: "1 \<le> ps" and c: "ps \<le> 1000" for p ps
  proof -
    obtain xs' where x: "get_page (dormant_queryset s) ps p = Inr xs'"
      using get_page_in_range[OF b] by blast
    have "get_page ([] :: merchant list) ps p = Inr []" by (rule get_page_Nil[OF b])
    then have "dormant_queryset s = [] \<Longrightarrow> xs' = []"
      using x by simp
    then show ?thesis using a b c x by (simp add: dormant_merchants_def Let_def)
  qed
  have an: "\<exists>b. anomalies (Some s) p ps = Ok200 b
              \<and> (find_anomalies s = [] \<longrightarrow> anomalies_data b = [])"
    if a: "1 \<le> p" and b: "1 \<le> ps" and c: "ps \<le> 1000" for p ps
  proof -
    obtain xs' where x: "get_page (find_anomalies s) ps p = Inr xs'"
      using get_page_in_range[OF b] by blast
    have "get_page ([] :: anomaly_row list) ps p = Inr []" by (rule get_page_Nil[OF b])
    then have "find_anomalies s = [] \<Longrightarrow> xs' = []"
      using x by simp
    then show ?thesis using a b c x by (simp add: anomalies_def Let_def)
  qed
  have rej: "pg < 1 \<or> page_size < 1 \<or> page_size > 1000 \<longrightarrow>
      dormant_merchants store pg page_size = Error400 ''Invalid pagination parameters''
      \<and> anomalies store pg page_size = Error400 ''Invalid pagination parameters''"
    by (simp add: dormant_merchants_def anomalies_def)
  have d1: "\<exists>b. dormant_merchants (Some s) 1 1000 = Ok200 b"
    using dm[of 1 1000] by auto
  have a1: "\<exists>b. anomalies (Some s) 1 1000 = Ok200 b"
    using an[of 1 1000] by auto
  from d1 a1 dm[of pg page_size] an[of pg page_size] rej
  show ?thesis by blast
qed

theorem pagination_bounds_witness:
  "dormant_merchants None 1 2000 = Error400 ''Invalid pagination parameters''
   \<and> anomalies None 0 50 = Error400 ''Invalid pagination parameters''
   \<and> (\<exists>b. dormant_merchants (Some \<lparr>transactions = [], merchants = []\<rparr>) 1 1000 = Ok200 b
          \<and> dormant_data b = [])
   \<and> (\<exists>b. anomalies (Some \<lparr>transactions = [], merchants = []\<rparr>) 1 1000 = Ok200 b
          \<and> anomalies_data b = [])"
  using pagination_bounds[where pg=1 and page_size=2000 and store=None and s="\<lparr>transactions = [], merchants = []\<rparr>"]
        pagination_bounds[where pg=0 and page_size=50 and store=None and s="\<lparr>transactions = [], merchants = []\<rparr>"]
        pagination_bounds[where pg=1 and page_size=1000 and store=None and s="\<lparr>transactions = [], merchants = []\<rparr>"]
  by (simp add: dormant_queryset_def find_anomalies_def category_stats_def)


text \<open>
  C10. With an in-range page size, a page number beyond the last page is answered (status
  200) with the items of the last page, for both paginated endpoints; these are not empty
  unless the whole result set is empty.
\<close>
theorem page_beyond_last_is_clamped:
  assumes "1 \<le> page_size" "page_size \<le> 1000"
  shows "(pg > num_pages (dormant_queryset s) page_size \<longrightarrow>
           (\<exists>b. dormant_merchants (Some s) pg page_size = Ok200 b
              \<and> Inr (dormant_data b) =
                    map_sum id (map dormant_row_of)
                      (page (dormant_queryset s) page_size (num_pages (dormant_queryset s) page_size))
              \<and> (dormant_queryset s \<noteq> [] \<longrightarrow> dormant_data b \<noteq> [])))
       \<and> (pg > num_pages (find_anomalies s) page_size \<longrightarrow>
           (\<exists>b. anomalies (Some s) pg page_size = Ok200 b
              \<and> Inr (anomalies_data b) =
                    page (find_anomalies s) page_size (num_pages (find_anomalies s) page_size)
              \<and> (find_anomalies s \<noteq> [] \<longrightarrow> anomalies_data b \<noteq> [])))"
proof (intro conjI impI)
  assume gt: "pg > num_pages (dormant_queryset s) page_size"
  have pg: "\<not> pg < 1" using gt num_pages_ge1[OF assms(1), of "dormant_queryset s"] by linarith
  show "\<exists>b. dormant_merchants (Some s) pg page_size = Ok200 b
            \<and> Inr (dormant_data b) =
                  map_sum id (map dormant_row_of)
                    (page (dormant_queryset s) page_size (num_pages (dormant_queryset s) page_size))
            \<and> (dormant_queryset s \<noteq> [] \<longrightarrow> dormant_data b \<noteq> [])"
    using assms pg last_page_nonempty[OF assms(1), of "dormant_queryset s"]
    by (simp add: dormant_merchants_def Let_def get_page_clamped[OF assms(1) gt]
          last_page_items[OF assms(1)])
next
  assume gt: "pg > num_pages (find_anomalies s) page_size"
  have pg: "\<not> pg < 1" using gt num_pages_ge1[OF assms(1), of "find_anomalies s"] by linarith
  show "\<exists>b. anomalies (Some s) pg page_size = Ok200 b
            \<and> Inr (anomalies_data b) =
                  page (find_anomalies s) page_size (num_pages (find_anomalies s) page_size)
            \<and> (find_anomalies s \<noteq> [] \<longrightarrow> anomalies_data b \<noteq> [])"
    using assms pg last_page_nonempty[OF assms(1), of "find_anomalies s"]
    by (simp add: anomalies_def Let_def get_page_clamped[OF assms(1) gt]
          last_page_items[OF assms(1)])
qed

theorem page_beyond_last_is_clamped_witness:
  "(1::int) \<le> 2 \<and> (2::int) \<le> 1000
   \<and> 5 > num_pages (dormant_queryset db3) 2
   \<and> (\<exists>b. dormant_merchants (Some db3) 5 2 = Ok200 b
          \<and> dormant_data b = [\<lparr>d_merchant_id = ''M3'', d_merchant_name = ''Unknown'', d_zone = ''Unknown''\<rparr>])"
proof -
  have q: "dormant_queryset db3 = merchants db3"
    by (simp add: dormant_queryset_def db3_def active_merchants_def)
  have n: "num_pages (merchants db3) 2 = 2" by (simp add: num_pages_def db3_def)
  have p: "page (merchants db3) 2 2 = Inr [\<lparr>m_merchant_id = ''M3'', m_name = None\<rparr>]"
    by (simp add: page_def validate_number_def n) (simp add: db3_def)
  show ?thesis
    using page_beyond_last_is_clamped[where page_size=2 and pg=5 and s=db3]
    by (auto simp: q n p dormant_row_of_def)
qed

subsection \<open>Hourly pattern\<close>

lemma dom_foldl_upd:
  "dom (foldl (\<lambda>m d. m(g_hour d \<mapsto> d)) m0 rows) = dom m0 \<union> g_hour ` set rows"
  by (induction rows arbitrary: m0) auto

lemma dom_hours_dict: "dom (hours_dict rows) = g_hour ` set rows"
  unfolding hours_dict_def by (simp add: dom_foldl_upd)

lemma hours_of_hourly_data:
  "g_hour ` set (hourly_data s) = (\<lambda>t. extract_hour (timestamp t)) ` set (transactions s)"
  unfolding hourly_data_def by (auto simp: Let_def image_iff)

lemma hourly_entry_absent:
  assumes "\<forall>t\<in>set (transactions s). extract_hour (timestamp t) \<noteq> h"
  shows "hourly_entry (hours_dict (hourly_data s)) h =
           \<lparr>h_hour = h, h_transaction_count = 0, h_average_amount = 0\<rparr>"
proof -
  have "h \<notin> dom (hours_dict (hourly_data s))"
    using assms by (auto simp: dom_hours_dict hours_of_hourly_data)
  then have "hours_dict (hourly_data s) h = None" by auto
  then show ?thesis by (simp add: hourly_entry_def)
qed

lemma h_hour_entry: "h_hour (hourly_entry hdict h) = h"
  by (simp add: hourly_entry_def split: option.splits)

text \<open>
  C9. On every store the hourly-pattern query answers with exactly 24 rows, row \<open>h\<close>
  carrying hour \<open>h\<close> for \<open>h = 0, ..., 23\<close> in this order, and every hour in which no
  transaction falls is reported with count 0 and average 0.0.
\<close>

theorem hourly_pattern_24_entries:
  "\<exists>rows. hourly_pattern (Some s) = Ok200 rows \<and> length rows = 24
     \<and> map h_hour rows = map int [0..<24]
     \<and> (\<forall>h<24. (\<forall>t\<in>set (transactions s). extract_hour (timestamp t) \<noteq> int h) \<longrightarrow>
            rows ! h = \<lparr>h_hour = int h, h_transaction_count = 0, h_average_amount = 0\<rparr>)"
proof -
  let ?rows = "map (hourly_entry (hours_dict (hourly_data s))) (map int [0..<24])"
  have 1: "hourly_pattern (Some s) = Ok200 ?rows" by (simp add: hourly_pattern_def)
  have 2: "length ?rows = 24" by simp
  have 3: "map h_hour ?rows = map int [0..<24]"
    by (simp add: comp_def h_hour_entry del: upt_Suc)
  have 4: "\<forall>h<24. (\<forall>t\<in>set (transactions s). extract_hour (timestamp t) \<noteq> int h) \<longrightarrow>
            ?rows ! h = \<lparr>h_hour = int h, h_transaction_count = 0, h_average_amount = 0\<rparr>"
  proof (intro allI impI)
    fix h :: nat
    assume h: "h < 24"
      and a: "\<forall>t\<in>set (transactions s). extract_hour (timestamp t) \<noteq> int h"
    have "?rows ! h = hourly_entry (hours_dict (hourly_data s)) (int h)"
      using h by (simp del: upt_Suc add: nth_map)
    then show "?rows ! h = \<lparr>h_hour = int h, h_transaction_count = 0, h_average_amount = 0\<rparr>"
      using hourly_entry_absent[OF a] by simp
  qed
  from 1 2 3 4 show ?thesis by blast
qed

theorem hourly_pattern_24_entries_witness:
  "set (map (\<lambda>t. extract_hour (timestamp t)) (transactions db11)) = {10}
   \<and> (\<exists>rows. hourly_pattern (Some db11) = Ok200 rows \<and> length rows = 24
         \<and> rows ! 3 = \<lparr>h_hour = 3, h_transaction_count = 0, h_average_amount = 0\<rparr>)"
proof -
  have h: "extract_hour example_timestamp = 10"
    by (simp add: extract_hour_def example_timestamp_def utc_microseconds_def
          wall_microseconds_def ymd2ord_def days_before_year_def days_before_month_def
          DAYS_BEFORE_MONTH_def is_leap_def)
  have a: "\<forall>t\<in>set (transactions db11). extract_hour (timestamp t) \<noteq> int 3"
    by (simp add: db11_def food_txn_def h)
  have b: "set (map (\<lambda>t. extract_hour (timestamp t)) (transactions db11)) = {10}"
    by (simp add: db11_def food_txn_def h)
  show ?thesis
    using hourly_pattern_24_entries[of db11] a b by auto
qed

subsection \<open>Anomaly detector\<close>

lemma Avg_Some: "xs \<noteq> [] \<Longrightarrow> Avg xs = Some (sum_list xs / real (length xs))"
  by (simp add: Avg_def)

lemma category_amounts_nonempty:
  "c \<in> category ` set (transactions s) \<Longrightarrow> category_amounts s c \<noteq> []"
  by (auto simp: category_amounts_def filter_empty_conv)

lemma category_anomalies_keys:
  assumes "Avg (category_amounts s c) = Some m"
  shows "map anomaly_key (category_anomalies s
            \<lparr>cs_category = c, category_mean = m, category_std_dev = StdDev (category_amounts s c)\<rparr>)
         = map transaction_key
             (filter (\<lambda>t. category t = c \<and> exceeds_threshold StdDev s t) (transactions s))"
proof -
  have eq: "(category t = c \<and> exceeds_threshold StdDev s t) =
        (category t = c \<and> (case StdDev (category_amounts s c) of None \<Rightarrow> False | Some sd \<Rightarrow> sd > 0 \<and> amount t > m + 3 * sd))" for t
    using assms by (auto simp: exceeds_threshold_def Let_def split: option.splits)
  show ?thesis
    unfolding eq
    by (cases "StdDev (category_amounts s c)")
       (auto simp: category_anomalies_def Let_def anomaly_key_def transaction_key_def comp_def
             intro!: map_cong filter_cong)
qed

lemma concat_filter_by_key:
  assumes "distinct cs"
  shows "mset (concat (map (\<lambda>c. filter (\<lambda>t. f t = c \<and> P t) xs) cs))
         = mset (filter (\<lambda>t. f t \<in> set cs \<and> P t) xs)"
  using assms
proof (induction cs)
  case Nil then show ?case by simp
next
  case (Cons c cs)
  have "mset (filter (\<lambda>t. f t = c \<and> P t) xs) + mset (filter (\<lambda>t. f t \<in> set cs \<and> P t) xs)
        = mset (filter (\<lambda>t. f t \<in> set (c # cs) \<and> P t) xs)"
    using Cons.prems by (induction xs) auto
  with Cons show ?case by simp
qed

lemma category_stats_eq:
  "category_stats s =
     map (\<lambda>c. \<lparr>cs_category = c,
               category_mean = sum_list (category_amounts s c) / real (length (category_amounts s c)),
               category_std_dev = StdDev (category_amounts s c)\<rparr>)
         (remdups (map category (transactions s)))"
proof -
  have "concat (map (\<lambda>c. case Avg (category_amounts s c) of None \<Rightarrow> []
                       | Some m \<Rightarrow> [\<lparr>cs_category = c, category_mean = m,
                                     category_std_dev = StdDev (category_amounts s c)\<rparr>]) cs)
        = map (\<lambda>c. \<lparr>cs_category = c,
               category_mean = sum_list (category_amounts s c) / real (length (category_amounts s c)),
               category_std_dev = StdDev (category_amounts s c)\<rparr>) cs"
    if "set cs \<subseteq> category ` set (transactions s)" for cs
    using that
    by (induction cs) (auto simp: Avg_Some category_amounts_nonempty)
  then show ?thesis unfolding category_stats_def by simp
qed

lemma find_anomalies_mset:
  "mset (map anomaly_key (find_anomalies s)) =
   mset (map transaction_key (filter (exceeds_threshold StdDev s) (transactions s)))"
proof -
  let ?cs = "remdups (map category (transactions s))"
  let ?stat = "\<lambda>c. \<lparr>cs_category = c,
               category_mean = sum_list (category_amounts s c) / real (length (category_amounts s c)),
               category_std_dev = StdDev (category_amounts s c)\<rparr>"
  have k: "map anomaly_key (category_anomalies s (?stat c)) =
           map transaction_key (filter (\<lambda>t. category t = c \<and> exceeds_threshold StdDev s t) (transactions s))"
    if "c \<in> set ?cs" for c
    using that by (intro category_anomalies_keys Avg_Some category_amounts_nonempty) simp
  have "map anomaly_key (concat (map (category_anomalies s) (category_stats s)))
        = concat (map (\<lambda>c. map anomaly_key (category_anomalies s (?stat c))) ?cs)"
    by (simp add: category_stats_eq map_concat comp_def)
  also have "\<dots> = concat (map (\<lambda>c. map transaction_key
               (filter (\<lambda>t. category t = c \<and> exceeds_threshold StdDev s t) (transactions s))) ?cs)"
    using k by (intro arg_cong[where f=concat] map_cong) auto
  also have "\<dots> = map transaction_key (concat (map (\<lambda>c.
               filter (\<lambda>t. category t = c \<and> exceeds_threshold StdDev s t) (transactions s)) ?cs))"
    by (simp add: map_concat comp_def)
  finally have "mset (map anomaly_key (concat (map (category_anomalies s) (category_stats s))))
      = image_mset transaction_key (mset (concat (map (\<lambda>c.
               filter (\<lambda>t. category t = c \<and> exceeds_threshold StdDev s t) (transactions s)) ?cs)))"
    by simp
  also have "\<dots> = image_mset transaction_key
        (mset (filter (\<lambda>t. category t \<in> set ?cs \<and> exceeds_threshold StdDev s t) (transactions s)))"
    by (subst concat_filter_by_key) simp_all
  also have "filter (\<lambda>t. category t \<in> set ?cs \<and> exceeds_threshold StdDev s t) (transactions s)
        = filter (exceeds_threshold StdDev s) (transactions s)"
    by (intro filter_cong) auto
  finally show ?thesis
    by (simp add: find_anomalies_def)
qed

lemma find_anomalies_sorted:
  "sorted_wrt (\<lambda>a b. a_amount b \<le> a_amount a) (find_anomalies s)"
proof -
  have "sorted (map (\<lambda>a. - a_amount a) (find_anomalies s))"
    unfolding find_anomalies_def by (rule sorted_sort_key)
  then show ?thesis by (simp add: sorted_map)
qed

lemma page_is_slice:
  "page xs per_page n = Inr ys \<Longrightarrow> \<exists>i j. ys = drop i (take j xs)"
  by (auto simp: page_def Let_def split: sum.splits)

lemma get_page_is_slice:
  "get_page xs per_page n = Inr ys \<Longrightarrow> \<exists>i j. ys = drop i (take j xs)"
  unfolding get_page_def Let_def by (rule page_is_slice)

lemma anomalies_data_slice:
  assumes "anomalies (Some s) pg page_size = Ok200 b"
  shows "\<exists>i j. anomalies_data b = drop i (take j (find_anomalies s))"
proof -
  from assms obtain ys where g: "get_page (find_anomalies s) page_size pg = Inr ys"
    and b: "anomalies_data b = ys"
    by (auto simp: anomalies_def Let_def split: if_splits sum.splits)
  from get_page_is_slice[OF g] b show ?thesis by simp
qed

lemma anomalies_data_sorted:
  assumes "anomalies (Some s) pg page_size = Ok200 b"
  shows "sorted_wrt (\<lambda>a b. a_amount b \<le> a_amount a) (anomalies_data b)"
proof -
  obtain i j where "anomalies_data b = drop i (take j (find_anomalies s))"
    using anomalies_data_slice[OF assms] by blast
  then show ?thesis
    using find_anomalies_sorted[of s] by (simp add: sorted_wrt_drop sorted_wrt_take)
qed

lemma get_page_single:
  assumes "1 \<le> per_page" "int (length xs) \<le> per_page"
  shows "get_page xs per_page 1 = Inr xs"
proof -
  have "num_pages xs per_page = 1"
    using assms unfolding num_pages_def Let_def
    by (intro ceiling_unique) (auto simp: max_def field_simps)
  then show ?thesis using assms
    by (simp add: get_page_def validate_number_def page_def Let_def)
qed

lemma db11_amounts:
  "category_amounts db11 ''Food'' = [10, 10, 10, 10, 10, 10, 10, 11, 11, 11, 18]"
  by (simp add: category_amounts_def db11_def food_txn_def)

lemma db11_Avg: "Avg (category_amounts db11 ''Food'') = Some 11"
  by (simp add: db11_amounts Avg_def)

lemma db11_StdDev: "StdDev (category_amounts db11 ''Food'') = Some (sqrt (56 / 11))"
  by (simp add: StdDev_def db11_Avg) (simp add: db11_amounts)

lemma db11_sample_StdDev: "sample_StdDev (category_amounts db11 ''Food'') = Some (sqrt (28 / 5))"
  by (simp add: sample_StdDev_def db11_Avg) (simp add: db11_amounts)

lemma db11_population_rule:
  "exceeds_threshold StdDev db11 (food_txn i a) = (a > 11 + 3 * sqrt (56 / 11))"
  by (simp add: exceeds_threshold_def food_txn_def db11_Avg db11_StdDev)

lemma db11_sample_rule:
  "exceeds_threshold sample_StdDev db11 (food_txn i a) = (a > 11 + 3 * sqrt (28 / 5))"
  by (simp add: exceeds_threshold_def food_txn_def db11_Avg db11_sample_StdDev)

lemma sqrt_pop_bounds: "0 \<le> sqrt (56 / 11 :: real) \<and> sqrt (56 / 11 :: real) < 7 / 3"
  by (rule conjI, simp, rule real_less_lsqrt) (simp_all add: power2_eq_square)

lemma sqrt_sample_bound: "7 / 3 \<le> sqrt (28 / 5 :: real)"
  by (rule real_le_rsqrt) (simp add: power2_eq_square)

lemma db11_transactions:
  "transactions db11 =
     [food_txn ''T01'' 10, food_txn ''T02'' 10, food_txn ''T03'' 10, food_txn ''T04'' 10,
      food_txn ''T05'' 10, food_txn ''T06'' 10, food_txn ''T07'' 10, food_txn ''T08'' 11,
      food_txn ''T09'' 11, food_txn ''T10'' 11, food_txn ''T11'' 18]"
  by (simp add: db11_def)

lemma db11_flagged:
  "filter (exceeds_threshold StdDev db11) (transactions db11) = [food_txn ''T11'' 18]"
  "map anomaly_key (find_anomalies db11) = [(''T11'', 18, ''Food'')]"
proof -
  have p: "\<not> (10 :: real) > 11 + 3 * sqrt (56 / 11)" "\<not> (11 :: real) > 11 + 3 * sqrt (56 / 11)"
    "(18 :: real) > 11 + 3 * sqrt (56 / 11)"
    using sqrt_pop_bounds by linarith+
  show pop: "filter (exceeds_threshold StdDev db11) (transactions db11) = [food_txn ''T11'' 18]"
    unfolding db11_transactions by (simp only: filter.simps db11_population_rule p if_True if_False)
  have "mset (map anomaly_key (find_anomalies db11)) = {#(''T11'', 18, ''Food'')#}"
    unfolding find_anomalies_mset pop by (simp add: transaction_key_def food_txn_def)
  then show "map anomaly_key (find_anomalies db11) = [(''T11'', 18, ''Food'')]"
    by (simp only: mset_single_iff)
qed

lemma db11_sample_flags_none:
  "filter (exceeds_threshold sample_StdDev db11) (transactions db11) = []"
proof -
  have q: "\<not> (10 :: real) > 11 + 3 * sqrt (28 / 5)" "\<not> (11 :: real) > 11 + 3 * sqrt (28 / 5)"
    "\<not> (18 :: real) > 11 + 3 * sqrt (28 / 5)"
    using sqrt_sample_bound by linarith+
  show ?thesis
    unfolding db11_transactions by (simp only: filter.simps db11_sample_rule q if_True if_False)
qed

text \<open>
  C1 (amended: population instead of sample standard deviation). On every store the anomaly
  detector flags exactly the transactions whose amount is strictly greater than the mean of
  their category plus three times the population standard deviation of their category,
  in the categories whose standard deviation is defined and strictly positive; the flagged
  transactions of all categories are sorted by amount, largest first, and so is every page
  of them that the endpoint returns.
\<close>

theorem anomalies_population_threshold:
  "mset (map anomaly_key (find_anomalies s)) =
     mset (map transaction_key (filter (exceeds_threshold StdDev s) (transactions s)))
   \<and> sorted_wrt (\<lambda>a b. a_amount b \<le> a_amount a) (find_anomalies s)
   \<and> (\<forall>pg page_size b. anomalies (Some s) pg page_size = Ok200 b \<longrightarrow>
          (\<exists>i j. anomalies_data b = drop i (take j (find_anomalies s)))
          \<and> sorted_wrt (\<lambda>a b. a_amount b \<le> a_amount a) (anomalies_data b))"
  using find_anomalies_mset find_anomalies_sorted anomalies_data_slice anomalies_data_sorted
  by blast

theorem anomalies_population_threshold_witness:
  "\<exists>b. anomalies (Some db11) 1 50 = Ok200 b
       \<and> map anomaly_key (anomalies_data b) = [(''T11'', 18, ''Food'')]
       \<and> sorted_wrt (\<lambda>a b. a_amount b \<le> a_amount a) (anomalies_data b)"
proof -
  have l: "length (find_anomalies db11) = 1"
    using arg_cong[OF db11_flagged(2), of length] by simp
  have g: "get_page (find_anomalies db11) 50 1 = Inr (find_anomalies db11)"
    by (rule get_page_single) (simp_all add: l)
  have r: "anomalies (Some db11) 1 50 =
             Ok200 \<lparr>anomalies_data = find_anomalies db11,
                    anomalies_pagination =
                      \<lparr>p_page = 1, p_page_size = 50,
                       p_total = int (length (find_anomalies db11)),
                       p_total_pages = num_pages (find_anomalies db11) 50\<rparr>\<rparr>"
    by (simp add: anomalies_def Let_def g)
  show ?thesis
    using anomalies_population_threshold[of db11] r db11_flagged(2) by auto
qed

text \<open>
  With the sample standard deviation the rule is another one: in \<open>db11\<close> the detector flags
  transaction T11 (18 > 11 + 3 * sqrt (56/11)), whereas no amount exceeds the mean plus three
  sample deviations (18 \<le> 11 + 3 * sqrt (28/5)).
\<close>

theorem sample_rule_counterexample:
  "map anomaly_key (find_anomalies db11) = [(''T11'', 18, ''Food'')]
   \<and> filter (exceeds_threshold sample_StdDev db11) (transactions db11) = []"
  using db11_flagged(2) db11_sample_flags_none by blast

section \<open>Properties of the record validator\<close>

lemmas digit_defs = isdigit_def digits_value_def digit_value_def take_digits_def

lemma upper_Nil_iff: "upper s = [] \<longleftrightarrow> s = []" by (simp add: upper_def)
lemma title_from_Nil_iff: "title_from b s = [] \<longleftrightarrow> s = []" by (cases s) auto
lemma title_Nil_iff: "title s = [] \<longleftrightarrow> s = []" by (simp add: title_def title_from_Nil_iff)

lemma clean_amount_SomeD:
  "clean_amount s = Some a \<Longrightarrow> Decimal (amount_clean s) = Some a \<and> 0 \<le> a \<and> a \<le> 1000000"
  by (auto simp: clean_amount_def split: option.splits if_splits)

lemma clean_amount_None_iff:
  "clean_amount s = None \<longleftrightarrow>
     (case Decimal (amount_clean s) of None \<Rightarrow> True | Some a \<Rightarrow> a < 0 \<or> a > 1000000)"
  by (auto simp: clean_amount_def split: option.splits if_splits)

lemma clean_transaction_data_SomeD:
  assumes "clean_transaction_data now row = Some t"
  shows "clean_amount (strip (get_field row ''AMOUNT'')) = Some (amount t)"
    and "clean_timestamp now (strip (get_field row ''TIMESTAMP'')) = Some (timestamp t)"
    and "customer_phone t = clean_phone (strip (get_field row ''CUSTOMER_PHONE''))"
    and "transaction_id t = strip (get_field row ''TRANSACTION_ID'')"
    and "merchant_id t = strip (get_field row ''MERCHANT_ID'')"
  using assms
  by (auto simp: clean_transaction_data_def Let_def split: option.splits if_splits)

lemma clean_transaction_data_None_iff:
  "clean_transaction_data now row = None \<longleftrightarrow>
     (\<not> required_present row
      \<or> clean_amount (strip (get_field row ''AMOUNT'')) = None
      \<or> clean_timestamp now (strip (get_field row ''TIMESTAMP'')) = None)"
  by (auto simp: clean_transaction_data_def required_present_def Let_def upper_Nil_iff title_Nil_iff
           split: option.splits if_splits)

text \<open>
  C4. The validator keeps of the AMOUNT field the digits, dots and minus signs only and
  parses the rest as a decimal number; the amount rule rejects exactly when that text does
  not parse or the number is strictly negative or strictly greater than 1,000,000, and a
  record whose other rules pass is rejected exactly when the amount rule rejects. Hence the
  amount of every accepted record lies between 0 and 1,000,000.
\<close>

theorem amount_rule:
  "amount_clean s = filter (\<lambda>c. c \<in> set ''0123456789.-'') s
   \<and> (clean_amount s = None \<longleftrightarrow>
        (case Decimal (amount_clean s) of None \<Rightarrow> True | Some a \<Rightarrow> a < 0 \<or> a > 1000000))
   \<and> (\<forall>a. clean_amount s = Some a \<longrightarrow> Decimal (amount_clean s) = Some a)
   \<and> (required_present row \<and> clean_timestamp now (strip (get_field row ''TIMESTAMP'')) \<noteq> None \<longrightarrow>
        (clean_transaction_data now row = None \<longleftrightarrow>
           clean_amount (strip (get_field row ''AMOUNT'')) = None))
   \<and> (\<forall>t. clean_transaction_data now row = Some t \<longrightarrow>
          clean_amount (strip (get_field row ''AMOUNT'')) = Some (amount t)
          \<and> 0 \<le> amount t \<and> amount t \<le> 1000000)"
proof -
  have 1: "amount_clean s = filter (\<lambda>c. c \<in> set ''0123456789.-'') s"
    unfolding amount_clean_def isdigit_def by (intro filter_cong) auto
  have 2: "clean_amount s = None \<longleftrightarrow>
        (case Decimal (amount_clean s) of None \<Rightarrow> True | Some a \<Rightarrow> a < 0 \<or> a > 1000000)"
    by (rule clean_amount_None_iff)
  have 3: "\<forall>a. clean_amount s = Some a \<longrightarrow> Decimal (amount_clean s) = Some a"
    by (auto dest: clean_amount_SomeD)
  have 4: "required_present row \<and> clean_timestamp now (strip (get_field row ''TIMESTAMP'')) \<noteq> None \<longrightarrow>
        (clean_transaction_data now row = None \<longleftrightarrow>
           clean_amount (strip (get_field row ''AMOUNT'')) = None)"
    by (auto simp: clean_transaction_data_None_iff)
  have 5: "\<forall>t. clean_transaction_data now row = Some t \<longrightarrow>
          clean_amount (strip (get_field row ''AMOUNT'')) = Some (amount t)
          \<and> 0 \<le> amount t \<and> amount t \<le> 1000000"
    by (auto dest: clean_transaction_data_SomeD(1) clean_amount_SomeD)
  from 1 2 3 4 5 show ?thesis by (intro conjI)
qed

subsection \<open>Evaluation on the example rows\<close>

lemma example_row_fields:
  "get_field (example_row a ts p) ''TRANSACTION_ID'' = ''TXN_0001''"
  "get_field (example_row a ts p) ''MERCHANT_ID'' = ''MERCH_1000''"
  "get_field (example_row a ts p) ''ZONE'' = ''North''"
  "get_field (example_row a ts p) ''CATEGORY'' = ''groceries''"
  "get_field (example_row a ts p) ''AMOUNT'' = a"
  "get_field (example_row a ts p) ''TIMESTAMP'' = ts"
  "get_field (example_row a ts p) ''CUSTOMER_PHONE'' = p"
  by (simp_all add: get_field_def example_row_def)

lemma example_strips:
  "strip ''TXN_0001'' = ''TXN_0001''" "strip ''MERCH_1000'' = ''MERCH_1000''"
  "strip ''North'' = ''North''" "strip ''groceries'' = ''groceries''"
  by (simp_all add: strip_def isspace_def)

lemma example_category:
  "upper ''North'' = ''NORTH''" "title ''groceries'' = ''Groceries''"
  "map_of category_mapping (upper ''Groceries'') = Some ''Grocery''"
  by (simp_all add: upper_def title_def upper_char_def lower_char_def is_cased_def
        lower_letters_def upper_letters_def category_mapping_def)

lemma clean_example_row:
  "clean_transaction_data now (example_row a ts p) =
     (if strip a = [] \<or> strip ts = [] then None
      else case clean_amount (strip a) of
             None \<Rightarrow> None
           | Some amt \<Rightarrow>
               (case clean_timestamp now (strip ts) of
                  None \<Rightarrow> None
                | Some t \<Rightarrow>
                    Some \<lparr>transaction_id = ''TXN_0001'', merchant_id = ''MERCH_1000'',
                          zone = ''NORTH'', category = ''Grocery'', amount = amt,
                          timestamp = t, customer_phone = clean_phone (strip p)\<rparr>))"
  unfolding clean_transaction_data_def Let_def example_row_fields example_strips example_category
  by (simp split: option.splits)

lemma example_amounts:
  "strip ''$1,250.50'' = ''$1,250.50''" "clean_amount ''$1,250.50'' = Some (2501 / 2)"
  "strip ''abc'' = ''abc''" "clean_amount ''abc'' = None"
  "strip ''10.50'' = ''10.50''" "clean_amount ''10.50'' = Some (21 / 2)"
  by (simp_all add: strip_def isspace_def clean_amount_def amount_clean_def Decimal_def digit_defs)

lemma example_phones:
  "strip [] = []" "clean_phone [] = []"
  "strip ''+1 (555) 123-4567'' = ''+1 (555) 123-4567''"
  "clean_phone ''+1 (555) 123-4567'' = ''+15551234567''"
  "strip ''12345'' = ''12345''" "clean_phone ''12345'' = ''INVALID''"
  by (simp_all add: strip_def isspace_def clean_phone_def isdigit_def)

lemma example_instants:
  "now2025 = 63871372800000000"
  "utc_microseconds example_timestamp = Some 63840997800000000"
  "utc_microseconds (example_timestamp\<lparr>tzoffset := None\<rparr>) = None"
  by (simp_all add: now2025_def example_timestamp_def utc_microseconds_def wall_microseconds_def
        ymd2ord_def days_before_year_def days_before_month_def DAYS_BEFORE_MONTH_def is_leap_def)

lemma example_new_datetime:
  "new_datetime 2024 1 15 10 30 0 0 tz =
     (if (case tz of None \<Rightarrow> True | Some off \<Rightarrow> - 86400000000 < off \<and> off < 86400000000)
      then Inr (example_timestamp\<lparr>tzoffset := tz\<rparr>) else Inl ValueError)"
  by (simp add: new_datetime_def days_in_month_def DAYS_IN_MONTH_def example_timestamp_def)

lemma example_iso_date: "parse_isoformat_date ''2024-01-15'' = Inr (2024, 1, 15)"
  by (simp add: parse_isoformat_date_def digit_defs)

lemma example_iso:
  "fromisoformat ''2024-01-15 10:30:00'' = Inr (example_timestamp\<lparr>tzoffset := None\<rparr>)"
  "fromisoformat ''2024-01-15T10:30:00+00:00'' = Inr example_timestamp"
  "fromisoformat ''2024/01/15 10:30:00'' = Inl ValueError"
  by (simp_all add: fromisoformat_def example_iso_date example_new_datetime
        parse_isoformat_time_def parse_hh_mm_ss_ff_def is_sign_def
        parse_isoformat_date_def digit_defs example_timestamp_def)

lemma example_formats:
  "strptime ''2024/01/15 10:30:00'' ''%Y-%m-%d %H:%M:%S'' = Inl ValueError"
  "strptime ''2024/01/15 10:30:00'' ''%Y-%m-%d %H:%M'' = Inl ValueError"
  "strptime ''2024/01/15 10:30:00'' ''%Y/%m/%d %H:%M:%S'' =
     Inr (example_timestamp\<lparr>tzoffset := None\<rparr>)"
  by (simp_all add: strptime_def compile_format_def alt1_def alt2_def isspace_def digit_defs
        field_value_def example_new_datetime)

lemma example_make_aware:
  "make_aware (example_timestamp\<lparr>tzoffset := None\<rparr>) = example_timestamp"
  by (simp add: make_aware_def example_timestamp_def)

lemma example_timestamps:
  "strip ''2024-01-15 10:30:00'' = ''2024-01-15 10:30:00''"
  "strip ''2024-01-15T10:30:00+00:00'' = ''2024-01-15T10:30:00+00:00''"
  "strip ''2024/01/15 10:30:00'' = ''2024/01/15 10:30:00''"
  "clean_timestamp now2025 ''2024-01-15 10:30:00'' = None"
  "clean_timestamp now2025 ''2024-01-15T10:30:00+00:00'' = Some example_timestamp"
  "clean_timestamp now2025 ''2024/01/15 10:30:00'' = Some example_timestamp"
proof -
  show "strip ''2024-01-15 10:30:00'' = ''2024-01-15 10:30:00''"
    "strip ''2024-01-15T10:30:00+00:00'' = ''2024-01-15T10:30:00+00:00''"
    "strip ''2024/01/15 10:30:00'' = ''2024/01/15 10:30:00''"
    by (simp_all add: strip_def isspace_def)
  then show "clean_timestamp now2025 ''2024-01-15 10:30:00'' = None"
    "clean_timestamp now2025 ''2024-01-15T10:30:00+00:00'' = Some example_timestamp"
    "clean_timestamp now2025 ''2024/01/15 10:30:00'' = Some example_timestamp"
    by (simp_all add: clean_timestamp_def replace_char_def example_iso example_formats formats_def
          reject_future_def later_than_now_def example_instants example_make_aware)
qed

lemma example_required:
  "required_present (example_row a ts p) \<longleftrightarrow> strip a \<noteq> [] \<and> strip ts \<noteq> []"
  by (simp add: required_present_def example_row_fields example_strips)

theorem amount_rule_witness:
  "required_present (example_row ''$1,250.50'' ''2024-01-15T10:30:00+00:00'' [])
   \<and> clean_timestamp now2025 (strip (get_field
          (example_row ''$1,250.50'' ''2024-01-15T10:30:00+00:00'' []) ''TIMESTAMP'')) \<noteq> None
   \<and> clean_transaction_data now2025 (example_row ''$1,250.50'' ''2024-01-15T10:30:00+00:00'' [])
       = Some (example_accepted (2501 / 2) [])
   \<and> clean_amount ''abc'' = None
   \<and> clean_transaction_data now2025 (example_row ''abc'' ''2024-01-15T10:30:00+00:00'' []) = None"
  using amount_rule[where s = "''abc''" and now = now2025
          and row = "example_row ''$1,250.50'' ''2024-01-15T10:30:00+00:00'' []"]
        amount_rule[where s = "''abc''" and now = now2025
          and row = "example_row ''abc'' ''2024-01-15T10:30:00+00:00'' []"]
  by (simp add: example_required example_row_fields example_amounts example_timestamps
        example_phones clean_example_row example_accepted_def)

subsection \<open>Phone\<close>

lemma digits_of_phone_clean1:
  "filter (\<lambda>x. (isdigit x \<or> x = CHR ''+'') \<and> isdigit x) raw = filter isdigit raw"
  by (induction raw) auto

lemma digits_of_phone_clean2:
  "filter isdigit (filter (\<lambda>c. isdigit c \<or> c = CHR ''+'') raw) = filter isdigit raw"
  by (induction raw) auto

lemma phone_clean_chars:
  "set (filter (\<lambda>c. isdigit c \<or> c = CHR ''+'') raw) \<subseteq> set ''0123456789+''"
  by (auto simp: isdigit_def)

lemma clean_phone_cases:
  "clean_phone raw =
     (if raw = [] then []
      else if length (filter isdigit raw) < 10 \<or> length (filter isdigit raw) > 15 then ''INVALID''
      else filter (\<lambda>c. isdigit c \<or> c = CHR ''+'') raw)"
  by (simp add: clean_phone_def Let_def digits_of_phone_clean1)

lemma get_field_other: "k' \<noteq> k \<Longrightarrow> get_field (row(k := v)) k' = get_field row k'"
  by (simp add: get_field_def)

lemma phone_never_rejects:
  "(clean_transaction_data now (row(''CUSTOMER_PHONE'' := v)) = None)
     = (clean_transaction_data now row = None)"
  by (simp add: clean_transaction_data_None_iff required_present_def get_field_other)

text \<open>
  C3 (amended: a blank phone stays blank, and plus signs are kept). The phone of an accepted
  record is the cleaned raw phone: blank when the raw phone is blank, otherwise the
  sentinel INVALID when the raw phone has fewer than 10 or more than 15 digits, otherwise
  the digits and plus signs of the raw phone (10 to 15 digits). The phone never causes a
  rejection: changing the phone field does not change whether a row is accepted.
\<close>

theorem phone_rule:
  "(\<forall>t. clean_transaction_data now row = Some t \<longrightarrow>
       customer_phone t = clean_phone (strip (get_field row ''CUSTOMER_PHONE''))
       \<and> (customer_phone t = [] \<or> customer_phone t = ''INVALID''
            \<or> (set (customer_phone t) \<subseteq> set ''0123456789+''
                \<and> 10 \<le> length (filter isdigit (customer_phone t))
                \<and> length (filter isdigit (customer_phone t)) \<le> 15)))
   \<and> (clean_phone raw = [] \<longleftrightarrow> raw = [])
   \<and> (raw \<noteq> [] \<and> (length (filter isdigit raw) < 10 \<or> length (filter isdigit raw) > 15) \<longrightarrow>
         clean_phone raw = ''INVALID'')
   \<and> (raw \<noteq> [] \<and> 10 \<le> length (filter isdigit raw) \<and> length (filter isdigit raw) \<le> 15 \<longrightarrow>
         clean_phone raw = filter (\<lambda>c. isdigit c \<or> c = CHR ''+'') raw)
   \<and> ((clean_transaction_data now (row(''CUSTOMER_PHONE'' := v)) = None)
         = (clean_transaction_data now row = None))"
proof -
  have shape: "clean_phone r = [] \<or> clean_phone r = ''INVALID''
            \<or> (set (clean_phone r) \<subseteq> set ''0123456789+''
                \<and> 10 \<le> length (filter isdigit (clean_phone r))
                \<and> length (filter isdigit (clean_phone r)) \<le> 15)" for r
    using phone_clean_chars[of r]
    by (simp add: clean_phone_cases digits_of_phone_clean1 del: set_filter)
  have 1: "\<forall>t. clean_transaction_data now row = Some t \<longrightarrow>
       customer_phone t = clean_phone (strip (get_field row ''CUSTOMER_PHONE''))
       \<and> (customer_phone t = [] \<or> customer_phone t = ''INVALID''
            \<or> (set (customer_phone t) \<subseteq> set ''0123456789+''
                \<and> 10 \<le> length (filter isdigit (customer_phone t))
                \<and> length (filter isdigit (customer_phone t)) \<le> 15))"
  proof (intro allI impI)
    fix t assume "clean_transaction_data now row = Some t"
    then have e: "customer_phone t = clean_phone (strip (get_field row ''CUSTOMER_PHONE''))"
      by (rule clean_transaction_data_SomeD(3))
    show "customer_phone t = clean_phone (strip (get_field row ''CUSTOMER_PHONE''))
       \<and> (customer_phone t = [] \<or> customer_phone t = ''INVALID''
            \<or> (set (customer_phone t) \<subseteq> set ''0123456789+''
                \<and> 10 \<le> length (filter isdigit (customer_phone t))
                \<and> length (filter isdigit (customer_phone t)) \<le> 15))"
      unfolding e using shape by simp
  qed
  have 2: "clean_phone raw = [] \<longleftrightarrow> raw = []"
  proof
    assume c: "clean_phone raw = []"
    show "raw = []"
    proof (rule ccontr)
      assume n: "raw \<noteq> []"
      show False
      proof (cases "length (filter isdigit raw) < 10 \<or> length (filter isdigit raw) > 15")
        case True
        then show False using c n by (simp add: clean_phone_cases)
      next
        case False
        then have "clean_phone raw = filter (\<lambda>c. isdigit c \<or> c = CHR ''+'') raw"
          using n by (simp add: clean_phone_cases)
        then have "filter isdigit (filter (\<lambda>c. isdigit c \<or> c = CHR ''+'') raw) = []"
          using c by simp
        then have "filter isdigit raw = []" by (simp only: digits_of_phone_clean2)
        then show False using False by simp
      qed
    qed
  qed (simp add: clean_phone_cases)
  have 3: "raw \<noteq> [] \<and> (length (filter isdigit raw) < 10 \<or> length (filter isdigit raw) > 15) \<longrightarrow>
         clean_phone raw = ''INVALID''"
    by (simp add: clean_phone_cases)
  have 4: "raw \<noteq> [] \<and> 10 \<le> length (filter isdigit raw) \<and> length (filter isdigit raw) \<le> 15 \<longrightarrow>
         clean_phone raw = filter (\<lambda>c. isdigit c \<or> c = CHR ''+'') raw"
    by (auto simp: clean_phone_cases)
  have 5: "(clean_transaction_data now (row(''CUSTOMER_PHONE'' := v)) = None)
         = (clean_transaction_data now row = None)"
    by (rule phone_never_rejects)
  from 1 2 3 4 5 show ?thesis by (intro conjI)
qed

theorem phone_rule_witness:
  "clean_transaction_data now2025
       (example_row ''10.50'' ''2024-01-15T10:30:00+00:00'' ''12345'')
     = Some (example_accepted (21 / 2) ''INVALID'')
   \<and> ''12345'' \<noteq> [] \<and> length (filter isdigit ''12345'') < 10
   \<and> clean_phone ''12345'' = ''INVALID''"
  using phone_rule[where raw = "''12345''" and now = now2025
          and row = "example_row ''10.50'' ''2024-01-15T10:30:00+00:00'' ''12345''"]
  by (simp add: example_amounts example_timestamps example_phones clean_example_row
        example_accepted_def isdigit_def)

text \<open>
  As the claim is worded it fails: a row with a blank phone is accepted with a blank phone,
  and a phone written with a plus sign keeps it; neither is a string of 10 to 15 digits or
  the sentinel.
\<close>

theorem phone_rule_counterexample:
  "clean_transaction_data now2025 (example_row ''10.50'' ''2024-01-15T10:30:00+00:00'' [])
     = Some (example_accepted (21 / 2) [])
   \<and> \<not> (digits_10_to_15 [] \<or> [] = ''INVALID'')
   \<and> clean_transaction_data now2025
         (example_row ''10.50'' ''2024-01-15T10:30:00+00:00'' ''+1 (555) 123-4567'')
       = Some (example_accepted (21 / 2) ''+15551234567'')
   \<and> \<not> (digits_10_to_15 ''+15551234567'' \<or> ''+15551234567'' = ''INVALID'')"
  by (simp add: example_amounts example_timestamps example_phones clean_example_row
        example_accepted_def digits_10_to_15_def isdigit_def)

subsection \<open>Timestamp\<close>

lemma clean_timestamp_naive_iso:
  assumes "fromisoformat (replace_char (CHR ''Z'') ''+00:00''
             (strip (replace_char (CHR 0x0A) '' '' ts))) = Inr t"
    and "tzoffset t = None"
  shows "clean_timestamp now ts = None"
  using assms
  by (simp add: clean_timestamp_def Let_def reject_future_def later_than_now_def
        utc_microseconds_def)

lemma clean_timestamp_no_format:
  assumes "fromisoformat (replace_char (CHR ''Z'') ''+00:00''
             (strip (replace_char (CHR 0x0A) '' '' ts))) = Inl ValueError"
    and "try_formats (strip (replace_char (CHR 0x0A) '' '' ts)) formats = Inr None"
  shows "clean_timestamp now ts = None"
  using assms by (simp add: clean_timestamp_def Let_def)

lemma clean_timestamp_fallback:
  assumes "fromisoformat (replace_char (CHR ''Z'') ''+00:00''
             (strip (replace_char (CHR 0x0A) '' '' ts))) = Inl ValueError"
    and "try_formats (strip (replace_char (CHR 0x0A) '' '' ts)) formats = Inr (Some t)"
  shows "clean_timestamp now ts =
           (if wall_microseconds t > now then None else Some (make_aware t))"
  using assms
  by (simp add: clean_timestamp_def Let_def reject_future_def later_than_now_def
        utc_microseconds_def make_aware_def wall_microseconds_def)

text \<open>
  C2 (the code departs from the claim). A timestamp without offset that
  \<open>datetime.fromisoformat\<close> parses is never made aware: only the fallback branch calls
  \<open>make_aware\<close>. Comparing it with the aware current time raises \<open>TypeError\<close>, which the
  validator turns into a rejection. So the row with TIMESTAMP \<open>2024-01-15 10:30:00\<close>, a year
  in the past, is rejected, whereas the same instant written with an offset, or in a format
  that only the fallback list parses, is accepted.
\<close>

theorem naive_iso_timestamp_rejected:
  "fromisoformat ''2024-01-15 10:30:00'' = Inr (example_timestamp\<lparr>tzoffset := None\<rparr>)
   \<and> clean_transaction_data now2025
         (example_row ''10.50'' ''2024-01-15 10:30:00'' ''+1 (555) 123-4567'') = None
   \<and> clean_transaction_data now2025
         (example_row ''10.50'' ''2024-01-15T10:30:00+00:00'' ''+1 (555) 123-4567'')
       = Some (example_accepted (21 / 2) ''+15551234567'')
   \<and> clean_transaction_data now2025
         (example_row ''10.50'' ''2024/01/15 10:30:00'' ''+1 (555) 123-4567'')
       = Some (example_accepted (21 / 2) ''+15551234567'')"
  by (simp add: example_iso example_amounts example_timestamps example_phones clean_example_row
        example_accepted_def)

section \<open>Properties of the ingestion run\<close>

subsection \<open>The loop body on the counters\<close>

lemma counters_get_or_create [simp]:
  "counters (get_or_create_merchant f st mid) = counters st"
  by (simp add: counters_def get_or_create_merchant_def Let_def)

lemma get_or_create_fields [simp]:
  "batch_data (get_or_create_merchant f st mid) = batch_data st"
  "bulk_calls (get_or_create_merchant f st mid) = bulk_calls st"
  "save_calls (get_or_create_merchant f st mid) = save_calls st"
  "task (get_or_create_merchant f st mid) = task st"
  "task_row (get_or_create_merchant f st mid) = task_row st"
  "local_rows_processed (get_or_create_merchant f st mid) = local_rows_processed st"
  "rows_failed (get_or_create_merchant f st mid) = rows_failed st"
  "staged_file (get_or_create_merchant f st mid) = staged_file st"
  by (simp_all add: get_or_create_merchant_def Let_def)

lemma counters_process_row:
  "counters (process_row f now st row) =
     counter_step f (clean_transaction_data now row \<noteq> None) (counters st)"
proof (cases "clean_transaction_data now row")
  case None
  then show ?thesis by (simp add: process_row_def counters_def counter_step_def)
next
  case (Some d)
  then show ?thesis
    by (simp add: process_row_def counters_def counter_step_def Let_def flush_def save_def
          split: prod.splits)
qed

lemma counters_process_rows:
  "counters (process_rows f now st rows) =
     foldl (\<lambda>c r. counter_step f (clean_transaction_data now r \<noteq> None) c) (counters st) rows"
  unfolding process_rows_def
  by (induction rows arbitrary: st) (simp_all add: counters_process_row)

text \<open>The task object and its row across the loop.\<close>

lemma task_process_row:
  "status (task (process_row f now st row)) = status (task st)"
  "status (task st) = PROCESSING \<Longrightarrow> task_row st \<noteq> None \<Longrightarrow> task_row (process_row f now st row) \<noteq> None"
  "staged_file (process_row f now st row) = staged_file st"
  by (auto simp: process_row_def Let_def flush_def save_def split: option.splits prod.splits)

subsection \<open>Rows that fill the batch without reaching its capacity\<close>

lemma counter_steps_fill:
  assumes "\<And>r. r \<in> set rows \<Longrightarrow> clean_transaction_data now r \<noteq> None"
    and "int b + int (length rows) < batch_size"
  shows "foldl (\<lambda>c r. counter_step f (clean_transaction_data now r \<noteq> None) c)
           (p, fl, b, c, s) rows = (p, fl, b + length rows, c, s)"
  using assms
proof (induction rows arbitrary: b)
  case Nil
  then show ?case by simp
next
  case (Cons r rows)
  have "counter_step f (clean_transaction_data now r \<noteq> None) (p, fl, b, c, s)
          = (p, fl, Suc b, c, s)"
    using Cons.prems by (simp add: counter_step_def)
  moreover have "int (Suc b) + int (length rows) < batch_size" using Cons.prems(2) by simp
  ultimately show ?case using Cons.IH[of "Suc b"] Cons.prems(1) by simp
qed

subsection \<open>The end of a run\<close>

lemma complete_run_result:
  assumes "\<not> (batch_data st \<noteq> [] \<and> bulk_create_raises f (length (bulk_calls st)))"
    and "\<not> save_raises f (save_calls st)"
  shows "task_row (complete_run f st) =
           Some ((task st)\<lparr>status := COMPLETED,
                   rows_processed := local_rows_processed st + int (length (batch_data st)),
                   rows_rejected := rows_failed st\<rparr>)"
    and "length (bulk_calls (complete_run f st)) =
           length (bulk_calls st) + (if batch_data st = [] then 0 else 1)"
    and "staged_file (complete_run f st) = False"
  using assms
  by (auto simp: complete_run_def flush_def save_def Let_def)

lemma process_rows_save_calls_counters:
  "counters st = (p, fl, b, c, s) \<Longrightarrow>
     local_rows_processed st = p \<and> rows_failed st = fl \<and> length (batch_data st) = b
     \<and> length (bulk_calls st) = c \<and> save_calls st = s"
  by (simp add: counters_def)

text \<open>The start of a run, up to the loop.\<close>

lemma process_csv_file_Rows:
  assumes "task_row st0 = Some t" "\<not> save_raises f (save_calls st0)"
  shows "process_csv_file f now (Rows rows) st0 =
           complete_run f (process_rows f now
             (st0\<lparr>task := t\<lparr>status := PROCESSING\<rparr>, save_calls := Suc (save_calls st0),
                  task_row := Some (t\<lparr>status := PROCESSING\<rparr>),
                  local_rows_processed := 0, rows_failed := 0, batch_data := []\<rparr>) rows)"
  using assms by (simp add: process_csv_file_def save_def Let_def)

subsection \<open>A store that never raises\<close>

text \<open>
  When no call to the store raises, every row is counted once, as processed or as rejected,
  and the run issues one \<open>bulk_create\<close> call per full batch and one for a last partial
  batch: \<open>ceil(n / 1000)\<close> calls for \<open>n\<close> valid rows.
\<close>

lemma reliable_counters:
  assumes "reliable f"
  shows "foldl (\<lambda>c r. counter_step f (clean_transaction_data now r \<noteq> None) c)
           (0, 0, 0, c0, s0) rows = (p, fl, b, c, s) \<Longrightarrow>
         c0 \<le> c \<and> p = 1000 * int (c - c0) \<and> b < 1000
         \<and> p + int b = int (valid_rows now rows)
         \<and> fl = int (length rows) - int (valid_rows now rows)"
proof (induction rows arbitrary: p fl b c s rule: rev_induct)
  case Nil
  then show ?case by (simp add: valid_rows_def)
next
  case (snoc r rows)
  obtain p' fl' b' c' s' where prev:
    "foldl (\<lambda>c r. counter_step f (clean_transaction_data now r \<noteq> None) c)
           (0, 0, 0, c0, s0) rows = (p', fl', b', c', s')"
    by (metis prod_cases5)
  note ih = snoc.IH[OF prev]
  have step: "counter_step f (clean_transaction_data now r \<noteq> None) (p', fl', b', c', s')
                = (p, fl, b, c, s)"
    using snoc.prems prev by simp
  have nf: "\<not> bulk_create_raises f c'" "\<not> save_raises f s'"
    using assms by (simp_all add: reliable_def)
  show ?case
  proof (cases "clean_transaction_data now r = None")
    case True
    then show ?thesis using step ih by (auto simp: counter_step_def valid_rows_def)
  next
    case False
    then show ?thesis using step ih nf
      by (auto simp: counter_step_def valid_rows_def batch_size_def split: if_splits)
  qed
qed

lemma ceiling_batches:
  assumes "b < 1000"
  shows "\<lceil>real (1000 * k + b) / 1000\<rceil> = int k + (if b = 0 then 0 else 1)"
proof (rule ceiling_unique)
  show "real_of_int (int k + (if b = 0 then 0 else 1)) - 1 < real (1000 * k + b) / 1000"
    using assms by (auto simp: field_simps)
  show "real (1000 * k + b) / 1000 \<le> real_of_int (int k + (if b = 0 then 0 else 1))"
    using assms by (auto simp: field_simps)
qed

lemma reliable_run:
  assumes "reliable f" "task_row st0 = Some t"
  shows "map_option status (task_row (process_csv_file f now (Rows rows) st0)) = Some COMPLETED
   \<and> map_option rows_processed (task_row (process_csv_file f now (Rows rows) st0))
       = Some (int (valid_rows now rows))
   \<and> map_option rows_rejected (task_row (process_csv_file f now (Rows rows) st0))
       = Some (int (length rows) - int (valid_rows now rows))
   \<and> int (length (bulk_calls (process_csv_file f now (Rows rows) st0)))
       = int (length (bulk_calls st0)) + \<lceil>real (valid_rows now rows) / 1000\<rceil>"
proof -
  let ?st1 = "st0\<lparr>task := t\<lparr>status := PROCESSING\<rparr>, save_calls := Suc (save_calls st0),
                  task_row := Some (t\<lparr>status := PROCESSING\<rparr>),
                  local_rows_processed := 0, rows_failed := 0, batch_data := []\<rparr>"
  let ?st = "process_rows f now ?st1 rows"
  have nf: "\<And>k. \<not> bulk_create_raises f k" "\<And>k. \<not> save_raises f k"
    using assms(1) by (simp_all add: reliable_def)
  have run: "process_csv_file f now (Rows rows) st0 = complete_run f ?st"
    by (rule process_csv_file_Rows[OF assms(2)]) (simp add: nf)
  obtain p fl b c s where cs: "counters ?st = (p, fl, b, c, s)" by (metis prod_cases5)
  have c1: "counters ?st1 = (0, 0, 0, length (bulk_calls st0), Suc (save_calls st0))"
    by (simp add: counters_def)
  have "foldl (\<lambda>c r. counter_step f (clean_transaction_data now r \<noteq> None) c)
           (0, 0, 0, length (bulk_calls st0), Suc (save_calls st0)) rows = (p, fl, b, c, s)"
    using cs unfolding counters_process_rows c1 .
  from reliable_counters[OF assms(1) this]
  have inv: "length (bulk_calls st0) \<le> c" "p = 1000 * int (c - length (bulk_calls st0))"
    "b < 1000" "p + int b = int (valid_rows now rows)"
    "fl = int (length rows) - int (valid_rows now rows)"
    by blast+
  have f: "local_rows_processed ?st = p" "rows_failed ?st = fl" "length (batch_data ?st) = b"
    "length (bulk_calls ?st) = c"
    using process_rows_save_calls_counters[OF cs] by simp_all
  have tr: "task_row (complete_run f ?st) =
           Some ((task ?st)\<lparr>status := COMPLETED,
                   rows_processed := local_rows_processed ?st + int (length (batch_data ?st)),
                   rows_rejected := rows_failed ?st\<rparr>)"
    by (rule complete_run_result(1)) (simp_all add: nf)
  have bc: "length (bulk_calls (complete_run f ?st)) =
           length (bulk_calls ?st) + (if batch_data ?st = [] then 0 else 1)"
    by (rule complete_run_result(2)) (simp_all add: nf)
  have "int (valid_rows now rows) = int (1000 * (c - length (bulk_calls st0)) + b)"
    using inv(2,4) by (simp del: of_nat_diff add: algebra_simps)
  then have v: "valid_rows now rows = 1000 * (c - length (bulk_calls st0)) + b"
    by (simp only: of_nat_eq_iff)
  have be: "(batch_data ?st = []) = (b = 0)" using f(3) by auto
  have "int (length (bulk_calls (complete_run f ?st)))
       = int (length (bulk_calls st0)) + \<lceil>real (valid_rows now rows) / 1000\<rceil>"
    unfolding bc v ceiling_batches[OF inv(3)] f(4) be using inv(1) by simp
  then show ?thesis
    unfolding run tr using f inv(4,5) by simp
qed

subsection \<open>A store whose first bulk insert raises\<close>

lemma good_row_valid:
  "clean_transaction_data now2025 good_row = Some (example_accepted (21 / 2) ''+15551234567'')"
  by (simp add: good_row_def example_amounts example_timestamps example_phones clean_example_row
        example_accepted_def)

lemma first_insert_fails_simps:
  "bulk_create_raises first_insert_fails k = (k = 0)"
  "save_raises first_insert_fails k = False"
  by (simp_all add: first_insert_fails_def)

lemma fresh_run:
  "process_csv_file first_insert_fails now2025 (Rows rows) fresh_state =
     complete_run first_insert_fails (process_rows first_insert_fails now2025
       (fresh_state\<lparr>task := queued_task\<lparr>status := PROCESSING\<rparr>, save_calls := Suc 0,
                     task_row := Some (queued_task\<lparr>status := PROCESSING\<rparr>),
                     local_rows_processed := 0, rows_failed := 0, batch_data := []\<rparr>) rows)"
  using process_csv_file_Rows[of fresh_state queued_task first_insert_fails now2025 rows]
  by (simp add: fresh_state_def first_insert_fails_simps)

lemma fresh_counters:
  "counters (fresh_state\<lparr>task := queued_task\<lparr>status := PROCESSING\<rparr>, save_calls := Suc 0,
                     task_row := Some (queued_task\<lparr>status := PROCESSING\<rparr>),
                     local_rows_processed := 0, rows_failed := 0, batch_data := []\<rparr>)
   = (0, 0, 0, 0, 1)"
  by (simp add: counters_def fresh_state_def)

lemma replicate_split:
  "replicate (n + 2) r = replicate n r @ [r, r]"
  "replicate (n + 3) r = replicate n r @ [r, r, r]"
proof -
  have "replicate (n + 2) r = replicate n r @ replicate 2 r"
    and "replicate (n + 3) r = replicate n r @ replicate 3 r"
    by (rule replicate_add)+
  then show "replicate (n + 2) r = replicate n r @ [r, r]"
    and "replicate (n + 3) r = replicate n r @ [r, r, r]"
    by (simp_all only: numeral_2_eq_2 numeral_3_eq_3 replicate.simps)
qed

lemma first_insert_fails_steps:
  "counter_step first_insert_fails True (0, 0, 999, 0, Suc 0) = (0, 1, 1000, Suc 0, Suc 0)"
  "counter_step first_insert_fails True (0, 1, 1000, Suc 0, Suc 0) = (1001, 1, 0, 2, 2)"
  "counter_step first_insert_fails True (1001, 1, 0, 2, 2) = (1001, 1, Suc 0, 2, 2)"
  by (simp_all add: counter_step_def batch_size_def first_insert_fails_simps)

lemma counters_after_999:
  "foldl (\<lambda>c r. counter_step first_insert_fails (clean_transaction_data now2025 r \<noteq> None) c)
     (0, 0, 0, 0, 1) (replicate 999 good_row) = (0, 0, 999, 0, 1)"
proof -
  have "foldl (\<lambda>c r. counter_step first_insert_fails (clean_transaction_data now2025 r \<noteq> None) c)
     (0, 0, 0, 0, 1) (replicate 999 good_row) = (0, 0, 0 + length (replicate 999 good_row), 0, 1)"
    by (rule counter_steps_fill) (simp_all add: good_row_valid batch_size_def)
  then show ?thesis by simp
qed

lemma counters_after_1001:
  "counters (process_rows first_insert_fails now2025
       (fresh_state\<lparr>task := queued_task\<lparr>status := PROCESSING\<rparr>, save_calls := Suc 0,
                     task_row := Some (queued_task\<lparr>status := PROCESSING\<rparr>),
                     local_rows_processed := 0, rows_failed := 0, batch_data := []\<rparr>)
       (replicate 1001 good_row)) = (1001, 1, 0, 2, 2)"
proof -
  have r: "replicate 1001 good_row = replicate 999 good_row @ [good_row, good_row]"
    using replicate_split(1)[of 999 good_row] by simp
  show ?thesis
    unfolding counters_process_rows fresh_counters r foldl_append counters_after_999
    by (simp add: good_row_valid first_insert_fails_steps)
qed

lemma counters_after_1002:
  "counters (process_rows first_insert_fails now2025
       (fresh_state\<lparr>task := queued_task\<lparr>status := PROCESSING\<rparr>, save_calls := Suc 0,
                     task_row := Some (queued_task\<lparr>status := PROCESSING\<rparr>),
                     local_rows_processed := 0, rows_failed := 0, batch_data := []\<rparr>)
       (replicate 1002 good_row)) = (1001, 1, 1, 2, 2)"
proof -
  have r: "replicate 1002 good_row = replicate 999 good_row @ [good_row, good_row, good_row]"
    using replicate_split(2)[of 999 good_row] by simp
  show ?thesis
    unfolding counters_process_rows fresh_counters r foldl_append counters_after_999
    by (simp add: good_row_valid first_insert_fails_steps)
qed

text \<open>
  C5 (the code departs from the claim). A file of 1001 valid rows is processed on a store
  whose first \<open>bulk_create\<close> call raises and whose later calls succeed. The exception is
  caught by the handler of the loop body, which counts a rejected row and keeps the batch;
  the next row flushes all 1001 records. The run reaches \<open>COMPLETED\<close> with
  \<open>rows_processed = 1001\<close> and \<open>rows_rejected = 1\<close>: the sum is 1002 for 1001 rows.
\<close>

theorem store_error_counted_as_rejected_row:
  "map_option status (task_row (process_csv_file first_insert_fails now2025
        (Rows (replicate 1001 good_row)) fresh_state)) = Some COMPLETED
   \<and> map_option rows_processed (task_row (process_csv_file first_insert_fails now2025
        (Rows (replicate 1001 good_row)) fresh_state)) = Some 1001
   \<and> map_option rows_rejected (task_row (process_csv_file first_insert_fails now2025
        (Rows (replicate 1001 good_row)) fresh_state)) = Some 1
   \<and> length (replicate 1001 good_row) = 1001"
proof -
  let ?st = "process_rows first_insert_fails now2025
       (fresh_state\<lparr>task := queued_task\<lparr>status := PROCESSING\<rparr>, save_calls := Suc 0,
                     task_row := Some (queued_task\<lparr>status := PROCESSING\<rparr>),
                     local_rows_processed := 0, rows_failed := 0, batch_data := []\<rparr>)
       (replicate 1001 good_row)"
  have c: "local_rows_processed ?st = 1001 \<and> rows_failed ?st = 1 \<and> length (batch_data ?st) = 0
     \<and> length (bulk_calls ?st) = 2 \<and> save_calls ?st = 2"
    by (rule process_rows_save_calls_counters) (rule counters_after_1001)
  then have b: "batch_data ?st = []" by simp
  have "task_row (complete_run first_insert_fails ?st) =
           Some ((task ?st)\<lparr>status := COMPLETED,
                   rows_processed := local_rows_processed ?st + int (length (batch_data ?st)),
                   rows_rejected := rows_failed ?st\<rparr>)"
    by (rule complete_run_result(1)) (simp_all add: b c first_insert_fails_simps)
  then show ?thesis unfolding fresh_run using c by simp
qed

text \<open>
  C6 (the code departs from the claim). On the same store a file of 1002 valid rows causes
  three \<open>bulk_create\<close> calls, not two: the call at row 1000 raises and leaves the batch
  in place, row 1001 triggers a second call, and the last row is flushed at the end of the
  input.
\<close>

theorem store_error_repeats_bulk_insert:
  "valid_rows now2025 (replicate 1002 good_row) = 1002
   \<and> map_option status (task_row (process_csv_file first_insert_fails now2025
        (Rows (replicate 1002 good_row)) fresh_state)) = Some COMPLETED
   \<and> length (bulk_calls (process_csv_file first_insert_fails now2025
        (Rows (replicate 1002 good_row)) fresh_state)) = 3
   \<and> \<lceil>1002 / 1000 :: real\<rceil> = 2"
proof -
  let ?st = "process_rows first_insert_fails now2025
       (fresh_state\<lparr>task := queued_task\<lparr>status := PROCESSING\<rparr>, save_calls := Suc 0,
                     task_row := Some (queued_task\<lparr>status := PROCESSING\<rparr>),
                     local_rows_processed := 0, rows_failed := 0, batch_data := []\<rparr>)
       (replicate 1002 good_row)"
  have c: "local_rows_processed ?st = 1001 \<and> rows_failed ?st = 1 \<and> length (batch_data ?st) = 1
     \<and> length (bulk_calls ?st) = 2 \<and> save_calls ?st = 2"
    by (rule process_rows_save_calls_counters) (rule counters_after_1002)
  then have b: "batch_data ?st \<noteq> []" by auto
  have 1: "task_row (complete_run first_insert_fails ?st) =
           Some ((task ?st)\<lparr>status := COMPLETED,
                   rows_processed := local_rows_processed ?st + int (length (batch_data ?st)),
                   rows_rejected := rows_failed ?st\<rparr>)"
    by (rule complete_run_result(1)) (simp_all add: c first_insert_fails_simps)
  have 2: "length (bulk_calls (complete_run first_insert_fails ?st)) =
           length (bulk_calls ?st) + (if batch_data ?st = [] then 0 else 1)"
    by (rule complete_run_result(2)) (simp_all add: c first_insert_fails_simps)
  have 3: "valid_rows now2025 (replicate 1002 good_row) = 1002"
    by (simp add: valid_rows_def good_row_valid)
  show ?thesis unfolding fresh_run using 1 2 3 b c by simp
qed

subsection \<open>The two scenarios on a store that never raises\<close>

lemma reliable_scenarios:
  "length (bulk_calls (process_csv_file no_faults now2025
             (Rows (replicate 1000 good_row)) fresh_state)) = 1"
  "length (bulk_calls (process_csv_file no_faults now2025
             (Rows (replicate 1500 good_row)) fresh_state)) = 2"
proof -
  have r: "reliable no_faults" by (simp add: reliable_def no_faults_def)
  have t: "task_row fresh_state = Some queued_task" "bulk_calls fresh_state = []"
    by (simp_all add: fresh_state_def)
  have v: "valid_rows now2025 (replicate n good_row) = n" for n
    by (simp add: valid_rows_def good_row_valid)
  show "length (bulk_calls (process_csv_file no_faults now2025
             (Rows (replicate 1000 good_row)) fresh_state)) = 1"
    using reliable_run[OF r t(1), of now2025 "replicate 1000 good_row"] by (simp add: v t(2))
  show "length (bulk_calls (process_csv_file no_faults now2025
             (Rows (replicate 1500 good_row)) fresh_state)) = 2"
    using reliable_run[OF r t(1), of now2025 "replicate 1500 good_row"] by (simp add: v t(2))
qed

section \<open>Properties of the submission gateway\<close>

lemma ingest_csv_missing_headers_rejected:
  assumes "f_fieldnames up = Fieldnames (Some headers)" "missing_headers headers \<noteq> []"
  shows "\<exists>msg. ingest_csv env up st = (Rejected 400 msg, st)"
  using assms by (simp add: ingest_csv_def split: option.splits)

text \<open>
  C7 (amended: the earlier checks come first). A submission whose header row is read and
  lacks required headers is always rejected with status 400 and creates no run record; when
  it passes the checks that precede the header check (a name, a size that is not zero, a
  name ending in \<open>.csv\<close>, at most 3 GiB, a sample that is not blank), the message
  is \<open>Missing required headers:\<close> followed by exactly the required headers that the
  header row lacks, in the order of the required list.
\<close>

theorem missing_headers_named:
  "(f_fieldnames up = Fieldnames (Some headers) \<and> missing_headers headers \<noteq> [] \<longrightarrow>
      (\<exists>msg. ingest_csv env up st = (Rejected 400 msg, st)))
   \<and> (f_name up \<noteq> [] \<and> f_size up \<noteq> 0 \<and> endswith (f_name up) ''.csv''
        \<and> f_size up \<le> 3 * 1024 * 1024 * 1024
        \<and> f_sample up = Some sample \<and> strip sample \<noteq> []
        \<and> f_fieldnames up = Fieldnames (Some headers) \<and> headers \<noteq> []
        \<and> missing_headers headers \<noteq> [] \<longrightarrow>
      ingest_csv env up st =
        (Rejected 400 (''Missing required headers: '' @ join '', '' (missing_headers headers)), st))
   \<and> set (missing_headers headers) = set required_headers - set headers"
proof -
  have 1: "f_fieldnames up = Fieldnames (Some headers) \<and> missing_headers headers \<noteq> [] \<longrightarrow>
      (\<exists>msg. ingest_csv env up st = (Rejected 400 msg, st))"
    using ingest_csv_missing_headers_rejected by blast
  have 2: "f_name up \<noteq> [] \<and> f_size up \<noteq> 0 \<and> endswith (f_name up) ''.csv''
        \<and> f_size up \<le> 3 * 1024 * 1024 * 1024
        \<and> f_sample up = Some sample \<and> strip sample \<noteq> []
        \<and> f_fieldnames up = Fieldnames (Some headers) \<and> headers \<noteq> []
        \<and> missing_headers headers \<noteq> [] \<longrightarrow>
      ingest_csv env up st =
        (Rejected 400 (''Missing required headers: '' @ join '', '' (missing_headers headers)), st)"
    by (simp add: ingest_csv_def)
  have 3: "set (missing_headers headers) = set required_headers - set headers"
    by (auto simp: missing_headers_def)
  from 1 2 3 show ?thesis by (intro conjI)
qed

lemma upload_without_amount_missing:
  "missing_headers [''TRANSACTION_ID'', ''MERCHANT_ID'', ''ZONE'', ''CATEGORY'', ''TIMESTAMP'',
                    ''CUSTOMER_PHONE''] = [''AMOUNT'']"
  by (simp add: missing_headers_def required_headers_def)

theorem missing_headers_named_witness:
  "ingest_csv working_env (upload_without_amount ''data.csv'') empty_gateway =
     (Rejected 400 ''Missing required headers: AMOUNT'', empty_gateway)"
  using missing_headers_named[where up = "upload_without_amount ''data.csv''"
          and env = working_env and st = empty_gateway
          and sample = "''TRANSACTION_ID,MERCHANT_ID,ZONE,CATEGORY,TIMESTAMP,CUSTOMER_PHONE''"
          and headers = "[''TRANSACTION_ID'', ''MERCHANT_ID'', ''ZONE'', ''CATEGORY'',
                          ''TIMESTAMP'', ''CUSTOMER_PHONE'']"]
  by (simp add: upload_without_amount_def upload_without_amount_missing endswith_def strip_def
        isspace_def)

text \<open>
  Without that condition the message can be another one: the same upload under the name
  \<open>data.txt\<close> is rejected for its name, and the message does not name AMOUNT.
\<close>

theorem other_check_first_counterexample:
  "ingest_csv working_env (upload_without_amount ''data.txt'') empty_gateway =
     (Rejected 400 ''Only CSV files allowed'', empty_gateway)
   \<and> f_fieldnames (upload_without_amount ''data.txt'') =
       Fieldnames (Some [''TRANSACTION_ID'', ''MERCHANT_ID'', ''ZONE'', ''CATEGORY'',
                         ''TIMESTAMP'', ''CUSTOMER_PHONE''])
   \<and> missing_headers [''TRANSACTION_ID'', ''MERCHANT_ID'', ''ZONE'', ''CATEGORY'', ''TIMESTAMP'',
                       ''CUSTOMER_PHONE''] = [''AMOUNT'']"
  by (simp add: ingest_csv_def upload_without_amount_def upload_without_amount_missing
        endswith_def)

end
